theory Spec2Isabelle
  imports Main "HOL-Library.AList" "HOL-Library.Multiset"
begin

section \<open>JavaScript strings\<close>

text \<open>
  A JavaScript string is a sequence of UTF-16 code units. The model writes it as a
  \<^typ>\<open>string\<close>: one \<^typ>\<open>char\<close> per code unit, for code units below 256. Every
  character the source tests for (hex digits, \<open>#\<close>, \<open>(\<close>, \<open>$\<close>, line feed) is in that range.
\<close>

definition LF :: char where
  "LF = CHR 0x0A"

definition DQ :: char where
  "DQ = CHR 0x22"

text \<open>
  \<open>String.prototype.trim\<close> strips WhiteSpace and LineTerminator code units from both ends.
  Below 256 these are TAB, LF, VT, FF, CR, SP and NBSP.
\<close>

definition is_js_space :: "char \<Rightarrow> bool" where
  "is_js_space c = (c \<in> set [CHR 0x09, CHR 0x0A, CHR 0x0B, CHR 0x0C, CHR 0x0D, CHR 0x20, CHR 0xA0])"

definition trim :: "string \<Rightarrow> string" where
  "trim s = rev (dropWhile is_js_space (rev (dropWhile is_js_space s)))"

text \<open>\<open>s.split('\n')\<close>: the segments between line feeds; the empty string gives one empty segment.\<close>

fun split_lines :: "string \<Rightarrow> string list" where
  "split_lines [] = [[]]"
| "split_lines (c # cs) =
     (if c = LF then [] # split_lines cs
      else (case split_lines cs of [] \<Rightarrow> [[c]] | l # ls \<Rightarrow> (c # l) # ls))"

text \<open>\<open>xs.join(sep)\<close>.\<close>

fun join :: "string \<Rightarrow> string list \<Rightarrow> string" where
  "join sep [] = []"
| "join sep [x] = x"
| "join sep (x # y # ys) = x @ sep @ join sep (y # ys)"

text \<open>\<open>line.startsWith('#')\<close> and \<open>line.includes('(')\<close>.\<close>

definition startsWith :: "string \<Rightarrow> char \<Rightarrow> bool" where
  "startsWith s c = (case s of [] \<Rightarrow> False | d # _ \<Rightarrow> d = c)"

definition includes_char :: "string \<Rightarrow> char \<Rightarrow> bool" where
  "includes_char s c = (c \<in> set s)"

text \<open>A number inside a template literal, \<open>`${n}`\<close>, for a non-negative integer: its decimal digits.\<close>

definition digit_char :: "nat \<Rightarrow> char" where
  "digit_char d = char_of (48 + d)"

fun show_nat :: "nat \<Rightarrow> string" where
  "show_nat n = (if n < 10 then [digit_char n] else show_nat (n div 10) @ [digit_char (n mod 10)])"

declare show_nat.simps [simp del]

section \<open>The selector pattern\<close>

text \<open>The character class \<open>[a-fA-F0-9]\<close>.\<close>

definition is_hex :: "char \<Rightarrow> bool" where
  "is_hex c = (c \<in> set ''abcdefABCDEF0123456789'')"

text \<open>The lookahead \<open>(?![a-fA-F0-9])\<close> on the rest of the text: it fails when a hex digit comes next.\<close>

definition hex_follows :: "string \<Rightarrow> bool" where
  "hex_follows s = (case s of [] \<Rightarrow> False | c # _ \<Rightarrow> is_hex c)"

text \<open>
  \<open>/^0x[a-fA-F0-9]{8}$/.test(selector)\<close>, the validation of \<open>cast_4byte_from_file\<close>
  (without the \<open>m\<close> flag, \<open>$\<close> is the end of the input).
\<close>

definition valid_selector :: "string \<Rightarrow> bool" where
  "valid_selector s = (length s = 10 \<and> take 2 s = ''0x'' \<and> list_all is_hex (drop 2 s))"

text \<open>\<open>/0x[a-fA-F0-9]{8}(?![a-fA-F0-9])/\<close> matches at the start of \<open>s\<close>.\<close>

definition selector_here :: "string \<Rightarrow> bool" where
  "selector_here s = (valid_selector (take 10 s) \<and> \<not> hex_follows (drop 10 s))"

text \<open>
  \<open>text.match(selectorRegex)\<close> with the \<open>g\<close> flag: the regular expression is tried at
  \<open>lastIndex = i\<close>; a match of ten code units moves \<open>lastIndex\<close> past it, a failure moves
  it by one. The result lists where the matches start.
\<close>

function match_indices :: "string \<Rightarrow> nat \<Rightarrow> nat list" where
  "match_indices text i =
     (if length text \<le> i then []
      else if selector_here (drop i text) then i # match_indices text (i + 10)
      else match_indices text (i + 1))"
  by pat_completeness auto
termination
  by (relation "measure (\<lambda>(text, i). length text - i)") auto

declare match_indices.simps [simp del]

text \<open>The matched substrings, in text order: \<open>traceOutput.match(selectorRegex) || []\<close>.\<close>

definition match_selectors :: "string \<Rightarrow> string list" where
  "match_selectors text = map (\<lambda>i. take 10 (drop i text)) (match_indices text 0)"

text \<open>
  \<open>[...new Set(xs)]\<close>: a Set keeps its elements in insertion order and ignores the insertion
  of an element it holds. \<open>set_add_all acc xs\<close> inserts \<open>xs\<close> into the Set whose elements
  are \<open>acc\<close>.
\<close>

fun set_add_all :: "'a list \<Rightarrow> 'a list \<Rightarrow> 'a list" where
  "set_add_all acc [] = acc"
| "set_add_all acc (x # xs) = set_add_all (if x \<in> set acc then acc else acc @ [x]) xs"

definition extract_selectors :: "string \<Rightarrow> string list" where
  "extract_selectors text = set_add_all [] (match_selectors text)"

text \<open>Where the scan first matched the string \<open>s\<close>, if it did.\<close>

definition first_match_index :: "string \<Rightarrow> string \<Rightarrow> nat option" where
  "first_match_index text s = find (\<lambda>i. take 10 (drop i text) = s) (match_indices text 0)"

section \<open>Annotating selectors in a trace\<close>

text \<open>
  The replacement string of \<open>String.prototype.replace\<close> is a template (GetSubstitution):
  \<open>$$\<close> stands for \<open>$\<close>, \<open>$&\<close> for the matched text, \<open>$`\<close> for the text before the match
  and \<open>$'\<close> for the text after it. The pattern has no capture group, so \<open>$1\<close> ... \<open>$99\<close>
  and \<open>$<\<close> stand for themselves, as does any other \<open>$\<close>.
\<close>

fun get_substitution :: "string \<Rightarrow> string \<Rightarrow> string \<Rightarrow> string \<Rightarrow> string" where
  "get_substitution matched preceding following [] = []"
| "get_substitution matched preceding following [c] = [c]"
| "get_substitution matched preceding following (c # d # rest) =
     (if c \<noteq> CHR ''$'' then c # get_substitution matched preceding following (d # rest)
      else if d = CHR ''$'' then CHR ''$'' # get_substitution matched preceding following rest
      else if d = CHR ''&'' then matched @ get_substitution matched preceding following rest
      else if d = CHR 0x60 then preceding @ get_substitution matched preceding following rest
      else if d = CHR 0x27 then following @ get_substitution matched preceding following rest
      else c # get_substitution matched preceding following (d # rest))"

text \<open>
  \<open>new RegExp(selector + "(?![a-fA-F0-9])", "g")\<close> matches at the start of \<open>s\<close>. Both callers
  pass a selector taken from the extracted list: it is \<open>0x\<close> and eight hex digits, so as a
  regular expression it denotes its own text.
\<close>

definition selector_at :: "string \<Rightarrow> string \<Rightarrow> bool" where
  "selector_at selector s =
     (selector \<noteq> [] \<and> take (length selector) s = selector \<and> \<not> hex_follows (drop (length selector) s))"

text \<open>
  \<open>text.replace(new RegExp(selector + "(?![a-fA-F0-9])", "g"), replacement)\<close> from
  \<open>lastIndex = i\<close> on: each match is replaced by the expanded template, and the code units
  between matches are copied.
\<close>

function replace_from :: "string \<Rightarrow> string \<Rightarrow> string \<Rightarrow> nat \<Rightarrow> string" where
  "replace_from selector replacement text i =
     (if length text \<le> i then []
      else if selector_at selector (drop i text)
      then get_substitution selector (take i text) (drop (i + length selector) text) replacement
           @ replace_from selector replacement text (i + length selector)
      else text ! i # replace_from selector replacement text (i + 1))"
  by pat_completeness auto
termination
proof (relation "measure (\<lambda>(selector, replacement, text, i). length text - i)")
  fix selector replacement trace :: string and i :: nat
  assume "\<not> length trace \<le> i" and "selector_at selector (drop i trace)"
  then have "0 < length selector" and "i < length trace"
    by (simp_all add: selector_at_def)
  then show "((selector, replacement, trace, i + length selector), (selector, replacement, trace, i))
      \<in> measure (\<lambda>(selector, replacement, text, i). length text - i)"
    by (cases selector) simp_all
qed auto

declare replace_from.simps [simp del]

definition replace_selector :: "string \<Rightarrow> string \<Rightarrow> string \<Rightarrow> string" where
  "replace_selector text selector replacement = replace_from selector replacement text 0"

text \<open>
  The annotation step of both entry points:
  \<open>text.replace(new RegExp(selector + "(?![a-fA-F0-9])", "g"), `${selector} [${annotation}]`)\<close>.
\<close>

definition annotate :: "string \<Rightarrow> string \<Rightarrow> string \<Rightarrow> string" where
  "annotate text selector annotation =
     replace_selector text selector (selector @ '' ['' @ annotation @ '']'')"

section \<open>The collaborators\<close>

text \<open>
  The toolchain, the file system and the configuration are outside the program. The model
  threads a world \<open>'w\<close> through every call, so the same command may answer differently
  each time it runs. \<open>castPath\<close>, \<open>forgePath\<close> and \<open>FOUNDRY_NOT_INSTALLED_ERROR\<close> are the
  constants of the configuration module. \<open>execAsync\<close> either rejects with an error
  message (\<open>Inl\<close>) or resolves with \<open>(stdout, stderr)\<close>; \<open>fs_readFile\<close> rejects with a
  message or resolves with the content; \<open>fs_access\<close> tells whether the promise resolved.
  \<open>resolveRpcUrl\<close> is taken as a string normaliser: the trace entry point only passes its
  result on to the command line.
\<close>

record 'w env =
  castPath :: string
  forgePath :: string
  FOUNDRY_NOT_INSTALLED_ERROR :: string
  execAsync :: "string \<Rightarrow> 'w \<Rightarrow> (string + string \<times> string) \<times> 'w"
  fs_access :: "string \<Rightarrow> 'w \<Rightarrow> bool \<times> 'w"
  fs_readFile :: "string \<Rightarrow> 'w \<Rightarrow> (string + string) \<times> 'w"
  resolveRpcUrl :: "string \<Rightarrow> 'w \<Rightarrow> string \<times> 'w"

record cmd_result =
  success :: bool
  message :: string

text \<open>\<open>executeCommand\<close>: stderr with no stdout is a failure, and so is a rejected process.\<close>

definition executeCommand :: "'w env \<Rightarrow> string \<Rightarrow> 'w \<Rightarrow> cmd_result \<times> 'w" where
  "executeCommand E command w =
     (case execAsync E command w of
        (Inr (stdout, stderr), w') \<Rightarrow>
          (if stderr \<noteq> [] \<and> stdout = [] then (\<lparr>success = False, message = stderr\<rparr>, w')
           else (\<lparr>success = True, message = stdout\<rparr>, w'))
      | (Inl errorMessage, w') \<Rightarrow> (\<lparr>success = False, message = errorMessage\<rparr>, w'))"

definition checkFoundryInstalled :: "'w env \<Rightarrow> 'w \<Rightarrow> bool \<times> 'w" where
  "checkFoundryInstalled E w =
     (case execAsync E (forgePath E @ '' --version'') w of
        (Inr _, w') \<Rightarrow> (True, w')
      | (Inl _, w') \<Rightarrow> (False, w'))"

text \<open>
  What a tool handler returns: one text item and the error flag (absent means false).
  A handler whose promise rejects is \<open>Thrown\<close>.
\<close>

record tool_result =
  text_of :: string
  isError :: bool

datatype 'a outcome = Returned 'a | Thrown string

text \<open>The candidate signatures of a directory answer: \<open>message.trim().split('\n').map(s => s.trim())\<close>.\<close>

definition parse_signatures :: "string \<Rightarrow> string list" where
  "parse_signatures msg = map trim (split_lines (trim msg))"

definition sig_command :: "'w env \<Rightarrow> string \<Rightarrow> string" where
  "sig_command E signature = castPath E @ '' sig '' @ [DQ] @ signature @ [DQ]"

section \<open>processFunctionSelectors\<close>

text \<open>
  The lookup loop: \<open>selectorMap\<close> is a Map, written as an association list in insertion
  order (\<open>AList.update\<close> replaces the value of a key it holds and appends a new key).
\<close>

fun lookup_selectors ::
  "'w env \<Rightarrow> string \<Rightarrow> string list \<Rightarrow> (string \<times> string list) list \<Rightarrow> 'w
    \<Rightarrow> (string \<times> string list) list \<times> 'w" where
  "lookup_selectors E rpcUrl [] selectorMap w = (selectorMap, w)"
| "lookup_selectors E rpcUrl (selector # rest) selectorMap w =
     (case executeCommand E
             (castPath E @ '' 4byte '' @ selector @ '' --rpc-url '' @ [DQ] @ rpcUrl @ [DQ]) w of
        (result, w') \<Rightarrow>
          if success result \<and> trim (message result) \<noteq> []
          then lookup_selectors E rpcUrl rest
                 (AList.update selector (parse_signatures (message result)) selectorMap) w'
          else lookup_selectors E rpcUrl rest selectorMap w')"

text \<open>
  \<open>signatures.sort((a, b) => a.length - b.length)\<close> is a stable sort by length;
  \<open>signatures.slice(0, 3).join(" or ")\<close>.
\<close>

definition signaturesDisplay :: "string list \<Rightarrow> string" where
  "signaturesDisplay signatures = join '' or '' (take 3 (sort_key length signatures))"

text \<open>The \<open>selectorMap.forEach\<close> that rewrites the trace, in insertion order.\<close>

fun annotate_selectors :: "(string \<times> string list) list \<Rightarrow> string \<Rightarrow> string" where
  "annotate_selectors [] processedOutput = processedOutput"
| "annotate_selectors ((selector, signatures) # rest) processedOutput =
     (if length signatures > 0
      then annotate_selectors rest
             (annotate processedOutput selector (''Likely: '' @ signaturesDisplay signatures))
      else annotate_selectors rest processedOutput)"

definition processFunctionSelectors :: "'w env \<Rightarrow> string \<Rightarrow> string \<Rightarrow> 'w \<Rightarrow> string \<times> 'w" where
  "processFunctionSelectors E traceOutput rpcUrl w =
     (let selectors = extract_selectors traceOutput in
      if length selectors = 0 then (traceOutput, w)
      else (case lookup_selectors E rpcUrl selectors [] w of
              (selectorMap, w') \<Rightarrow> (annotate_selectors selectorMap traceOutput, w')))"

section \<open>cast_4byte_from_file\<close>

text \<open>
  The lines of the signature file:
  \<open>fileContent.split('\n').map(line => line.trim()).filter(line => line && !line.startsWith('#'))\<close>.
\<close>

definition file_signatures :: "string \<Rightarrow> string list" where
  "file_signatures fileContent =
     filter (\<lambda>line. line \<noteq> [] \<and> \<not> startsWith line (CHR ''#'')) (map trim (split_lines fileContent))"

text \<open>
  The loop over the file's lines. A line without \<open>(\<close> is skipped before any command runs.
\<close>

fun match_signatures ::
  "'w env \<Rightarrow> bool \<Rightarrow> string \<Rightarrow> string list \<Rightarrow> string list \<Rightarrow> 'w \<Rightarrow> string list \<times> 'w" where
  "match_signatures E fuzzyMatch selector [] matchingSignatures w = (matchingSignatures, w)"
| "match_signatures E fuzzyMatch selector (signature # rest) matchingSignatures w =
     (if \<not> includes_char signature (CHR ''('')
      then match_signatures E fuzzyMatch selector rest matchingSignatures w
      else (case executeCommand E (sig_command E signature) w of
              (sigResult, w') \<Rightarrow>
                if success sigResult \<and> trim (message sigResult) = selector
                then match_signatures E fuzzyMatch selector rest (matchingSignatures @ [signature]) w'
                else if fuzzyMatch \<and> success sigResult
                then (let resultSelector = trim (message sigResult) in
                      if take 6 resultSelector = take 6 selector
                      then match_signatures E fuzzyMatch selector rest
                             (matchingSignatures
                                @ [signature @ '' (partial match: '' @ resultSelector @ '')'']) w'
                      else match_signatures E fuzzyMatch selector rest matchingSignatures w')
                else match_signatures E fuzzyMatch selector rest matchingSignatures w'))"

definition compile_results :: "string \<Rightarrow> string list \<Rightarrow> string list \<Rightarrow> string" where
  "compile_results selector matchingSignatures onlineSignatures =
     ''Results for selector '' @ selector @ '':'' @ [LF, LF]
     @ (if length matchingSignatures > 0
        then ''Matching signatures from local file:'' @ [LF] @ join [LF] matchingSignatures @ [LF, LF]
        else ''No matching signatures found in local file.'' @ [LF, LF])
     @ (if length onlineSignatures > 0
        then ''Possible signatures from 4byte directory:'' @ [LF] @ join [LF] onlineSignatures
        else ''No signatures found in 4byte directory.'')"

text \<open>
  The handler. Everything after the installation check runs inside \<open>try\<close>: a rejected
  \<open>readFile\<close> is the only exception of the model, and the \<open>catch\<close> turns it into an error
  result.
\<close>

definition cast_4byte_from_file ::
  "'w env \<Rightarrow> string \<Rightarrow> string \<Rightarrow> bool \<Rightarrow> 'w \<Rightarrow> tool_result \<times> 'w" where
  "cast_4byte_from_file E selector filePath fuzzyMatch w =
     (case checkFoundryInstalled E w of
        (installed, w1) \<Rightarrow>
          if \<not> installed then (\<lparr>text_of = FOUNDRY_NOT_INSTALLED_ERROR E, isError = True\<rparr>, w1)
          else if \<not> valid_selector selector
          then (\<lparr>text_of = ''Invalid selector format. Must be 0x followed by 8 hex characters.'',
                 isError = True\<rparr>, w1)
          else (case executeCommand E (castPath E @ '' 4byte '' @ selector) w1 of
                  (onlineResult, w2) \<Rightarrow>
                    let onlineSignatures =
                          (if success onlineResult \<and> trim (message onlineResult) \<noteq> []
                           then parse_signatures (message onlineResult) else [])
                    in (case fs_access E filePath w2 of
                          (fileExists, w3) \<Rightarrow>
                            if \<not> fileExists
                            then (\<lparr>text_of = ''Signatures file not found: '' @ filePath,
                                   isError = True\<rparr>, w3)
                            else (case fs_readFile E filePath w3 of
                                    (Inl err, w4) \<Rightarrow>
                                      (\<lparr>text_of = ''Error processing signatures: '' @ err,
                                        isError = True\<rparr>, w4)
                                  | (Inr fileContent, w4) \<Rightarrow>
                                      let signatures = file_signatures fileContent in
                                      if length signatures = 0
                                      then (\<lparr>text_of = ''No signatures found in the provided file.'',
                                             isError = True\<rparr>, w4)
                                      else (case match_signatures E fuzzyMatch selector signatures [] w4 of
                                              (matchingSignatures, w5) \<Rightarrow>
                                                (\<lparr>text_of = compile_results selector matchingSignatures
                                                               onlineSignatures,
                                                  isError = False\<rparr>, w5))))))"

section \<open>analyze_transaction_trace\<close>

text \<open>The value of \<open>selectorMap\<close> for one selector: \<open>{ online: string[], local: string[] }\<close>.\<close>

record matches =
  online :: "string list"
  local_sigs :: "string list"

text \<open>
  The lines of the signature file, here filtered in one step:
  \<open>.filter(line => line && !line.startsWith('#') && line.includes('('))\<close>.
\<close>

definition trace_file_signatures :: "string \<Rightarrow> string list" where
  "trace_file_signatures fileContent =
     filter (\<lambda>line. line \<noteq> [] \<and> \<not> startsWith line (CHR ''#'') \<and> includes_char line (CHR ''(''))
       (map trim (split_lines fileContent))"

fun local_signatures ::
  "'w env \<Rightarrow> string \<Rightarrow> string list \<Rightarrow> string list \<Rightarrow> 'w \<Rightarrow> string list \<times> 'w" where
  "local_signatures E selector [] localSignatures w = (localSignatures, w)"
| "local_signatures E selector (signature # rest) localSignatures w =
     (case executeCommand E (sig_command E signature) w of
        (sigResult, w') \<Rightarrow>
          if success sigResult \<and> trim (message sigResult) = selector
          then local_signatures E selector rest (localSignatures @ [signature]) w'
          else local_signatures E selector rest localSignatures w')"

text \<open>
  The local lookup for one selector. \<open>signatureFile\<close> is optional, and the empty path is
  falsy. This code is outside any \<open>try\<close>: a rejected \<open>readFile\<close> rejects the handler.
\<close>

definition lookup_local ::
  "'w env \<Rightarrow> string \<Rightarrow> string option \<Rightarrow> 'w \<Rightarrow> string list outcome \<times> 'w" where
  "lookup_local E selector signatureFile w =
     (case signatureFile of
        None \<Rightarrow> (Returned [], w)
      | Some path \<Rightarrow>
          if path = [] then (Returned [], w)
          else (case fs_access E path w of
                  (fileExists, w1) \<Rightarrow>
                    if \<not> fileExists then (Returned [], w1)
                    else (case fs_readFile E path w1 of
                            (Inl err, w2) \<Rightarrow> (Thrown err, w2)
                          | (Inr fileContent, w2) \<Rightarrow>
                              (case local_signatures E selector
                                      (trace_file_signatures fileContent) [] w2 of
                                 (localSignatures, w3) \<Rightarrow> (Returned localSignatures, w3)))))"

text \<open>Step 3, the loop over the selectors that fills \<open>selectorMap\<close>.\<close>

fun match_selectors_with_signatures ::
  "'w env \<Rightarrow> string option \<Rightarrow> string list \<Rightarrow> (string \<times> matches) list \<Rightarrow> 'w
    \<Rightarrow> (string \<times> matches) list outcome \<times> 'w" where
  "match_selectors_with_signatures E signatureFile [] selectorMap w = (Returned selectorMap, w)"
| "match_selectors_with_signatures E signatureFile (selector # rest) selectorMap w =
     (case executeCommand E (castPath E @ '' 4byte '' @ selector) w of
        (onlineResult, w1) \<Rightarrow>
          let onlineSignatures =
                (if success onlineResult \<and> trim (message onlineResult) \<noteq> []
                 then parse_signatures (message onlineResult) else [])
          in (case lookup_local E selector signatureFile w1 of
                (Thrown err, w2) \<Rightarrow> (Thrown err, w2)
              | (Returned localSignatures, w2) \<Rightarrow>
                  match_selectors_with_signatures E signatureFile rest
                    (AList.update selector
                       \<lparr>online = onlineSignatures, local_sigs = localSignatures\<rparr> selectorMap) w2))"

text \<open>Step 4, the report. The two sections of a selector's block:\<close>

definition local_section :: "string list \<Rightarrow> string" where
  "local_section sigs =
     ''  Local matches ('' @ show_nat (length sigs) @ ''):'' @ [LF]
     @ concat (map (\<lambda>sig. ''    - '' @ sig @ [LF]) sigs)"

definition online_section :: "string list \<Rightarrow> string" where
  "online_section sigs =
     ''  Online matches ('' @ show_nat (length sigs) @ ''):'' @ [LF]
     @ concat (map (\<lambda>sig. ''    - '' @ sig @ [LF]) (take 5 sigs))
     @ (if length sigs > 5
        then ''    - ... and '' @ show_nat (length sigs - 5) @ '' more'' @ [LF] else [])"

text \<open>
  One selector's block. \<open>selectorMap.get(selector)\<close> may be undefined for the type checker;
  under the optional chaining of the source an undefined entry behaves as two empty lists.
\<close>

definition selector_block :: "(string \<times> matches) list \<Rightarrow> string \<Rightarrow> string" where
  "selector_block selectorMap selector =
     (let signatures = map_of selectorMap selector;
          localMatches = (case signatures of None \<Rightarrow> [] | Some e \<Rightarrow> local_sigs e);
          onlineMatches = (case signatures of None \<Rightarrow> [] | Some e \<Rightarrow> online e)
      in ''Selector: '' @ selector @ [LF]
         @ (if length localMatches > 0 then local_section localMatches else [])
         @ (if length onlineMatches > 0 then online_section onlineMatches else [])
         @ (if length localMatches = 0 \<and> length onlineMatches = 0
            then ''  No matches found'' @ [LF] else [])
         @ [LF])"

definition build_report :: "string \<Rightarrow> string list \<Rightarrow> (string \<times> matches) list \<Rightarrow> string" where
  "build_report txHash selectors selectorMap =
     ''Analysis of transaction '' @ txHash @ '':'' @ [LF, LF]
     @ ''Found '' @ show_nat (length selectors) @ '' unique function selectors in the trace.'' @ [LF, LF]
     @ concat (map (selector_block selectorMap) selectors)"

text \<open>
  Step 5. \<open>signatures.local[0] || signatures.online[0] || null\<close>: an empty list gives
  undefined, and an empty string is falsy too.
\<close>

definition first_truthy :: "string list \<Rightarrow> string option" where
  "first_truthy xs = (case xs of [] \<Rightarrow> None | x # _ \<Rightarrow> if x = [] then None else Some x)"

definition bestMatch :: "matches \<Rightarrow> string option" where
  "bestMatch signatures =
     (case first_truthy (local_sigs signatures) of
        Some sig \<Rightarrow> Some sig
      | None \<Rightarrow> first_truthy (online signatures))"

fun simplify_trace :: "(string \<times> matches) list \<Rightarrow> string \<Rightarrow> string" where
  "simplify_trace [] simplifiedTrace = simplifiedTrace"
| "simplify_trace ((selector, signatures) # rest) simplifiedTrace =
     (case bestMatch signatures of
        Some best \<Rightarrow> simplify_trace rest (annotate simplifiedTrace selector best)
      | None \<Rightarrow> simplify_trace rest simplifiedTrace)"

definition trace_command :: "'w env \<Rightarrow> string \<Rightarrow> string \<Rightarrow> string list \<Rightarrow> string" where
  "trace_command E txHash resolvedRpcUrl knownAddresses =
     castPath E @ '' run '' @ txHash @ '' --trace --verbosity 4''
     @ (if resolvedRpcUrl \<noteq> [] then '' --rpc-url '' @ [DQ] @ resolvedRpcUrl @ [DQ] else [])
     @ concat (map (\<lambda>addressInfo. '' --label '' @ addressInfo) knownAddresses)"

definition analyze_transaction_trace ::
  "'w env \<Rightarrow> string \<Rightarrow> string \<Rightarrow> string option \<Rightarrow> string list \<Rightarrow> 'w
    \<Rightarrow> tool_result outcome \<times> 'w" where
  "analyze_transaction_trace E txHash rpcUrl signatureFile knownAddresses w =
     (case checkFoundryInstalled E w of
        (installed, w1) \<Rightarrow>
          if \<not> installed
          then (Returned \<lparr>text_of = FOUNDRY_NOT_INSTALLED_ERROR E, isError = True\<rparr>, w1)
          else (case resolveRpcUrl E rpcUrl w1 of
                  (resolvedRpcUrl, w2) \<Rightarrow>
                    (case executeCommand E (trace_command E txHash resolvedRpcUrl knownAddresses) w2 of
                       (traceResult, w3) \<Rightarrow>
                         if \<not> success traceResult
                         then (Returned \<lparr>text_of = ''Failed to trace transaction: '' @ message traceResult,
                                          isError = True\<rparr>, w3)
                         else let selectors = extract_selectors (message traceResult) in
                              if length selectors = 0
                              then (Returned
                                      \<lparr>text_of = ''No function selectors found in the transaction trace.'',
                                        isError = False\<rparr>, w3)
                              else (case match_selectors_with_signatures E signatureFile selectors [] w3 of
                                      (Thrown err, w4) \<Rightarrow> (Thrown err, w4)
                                    | (Returned selectorMap, w4) \<Rightarrow>
                                        (Returned
                                           \<lparr>text_of = build_report txHash selectors selectorMap
                                                        @ ''Simplified trace with function names:'' @ [LF, LF]
                                                        @ simplify_trace selectorMap (message traceResult),
                                             isError = False\<rparr>, w4)))))"

section \<open>The wording of the specification\<close>

text \<open>
  The specification's ranker for inline annotation, in its own words: at most three
  signatures, the local ones when there are any, otherwise the remote ones sorted by length.
\<close>

definition spec_inline_choice :: "matches \<Rightarrow> string list" where
  "spec_inline_choice e =
     take 3 (if local_sigs e \<noteq> [] then local_sigs e else sort_key length (online e))"

text \<open>
  The specification's candidate lines of a signature file: a line counts when its trimmed
  text is not blank, does not start with \<open>#\<close> and contains \<open>(\<close>.
\<close>

definition spec_candidate :: "string \<Rightarrow> bool" where
  "spec_candidate line =
     (trim line \<noteq> [] \<and> \<not> startsWith (trim line) (CHR ''#'') \<and> includes_char line (CHR ''(''))"

text \<open>
  The specification's annotator: a global textual substitution that puts the text
  \<open>selector [annotation]\<close> itself in the place of every match.
\<close>

function spec_replace :: "string \<Rightarrow> string \<Rightarrow> string \<Rightarrow> string" where
  "spec_replace selector replacement [] = []"
| "spec_replace selector replacement (c # cs) =
     (if selector_at selector (c # cs)
      then replacement @ spec_replace selector replacement (drop (length selector) (c # cs))
      else c # spec_replace selector replacement cs)"
  by pat_completeness auto
termination
proof (relation "measure (\<lambda>(selector, replacement, s). length s)")
  fix selector replacement :: string and c :: char and cs :: string
  assume "selector_at selector (c # cs)"
  then have "selector \<noteq> []" by (simp add: selector_at_def)
  then show "((selector, replacement, drop (length selector) (c # cs)), (selector, replacement, c # cs))
      \<in> measure (\<lambda>(selector, replacement, s). length s)"
    by (cases selector) simp_all
qed auto

declare spec_replace.simps(2) [simp del]

definition spec_annotate :: "string \<Rightarrow> string \<Rightarrow> string \<Rightarrow> string" where
  "spec_annotate text selector annotation =
     spec_replace selector (selector @ '' ['' @ annotation @ '']'') text"

text \<open>Whether \<open>xs\<close> occurs in \<open>ys\<close> as a run of consecutive characters.\<close>

fun occurs_in :: "string \<Rightarrow> string \<Rightarrow> bool" where
  "occurs_in xs [] = (xs = [])"
| "occurs_in xs (y # ys) = (take (length xs) (y # ys) = xs \<or> occurs_in xs ys)"

section \<open>A steady toolchain\<close>

text \<open>
  The candidate lists the specification's resolver yields for a selector when the answer
  of a command does not depend on when it runs, \<open>run\<close> giving the answer of each command:
  the directory's candidates, and the candidate lines of the signature file whose computed
  selector equals the target.
\<close>

definition steady_online :: "'w env \<Rightarrow> (string \<Rightarrow> cmd_result) \<Rightarrow> string \<Rightarrow> string list" where
  "steady_online E run selector =
     (let r = run (castPath E @ '' 4byte '' @ selector)
      in if success r \<and> trim (message r) \<noteq> [] then parse_signatures (message r) else [])"

definition steady_local ::
  "'w env \<Rightarrow> (string \<Rightarrow> cmd_result) \<Rightarrow> string \<Rightarrow> string \<Rightarrow> string list" where
  "steady_local E run fileContent selector =
     filter (\<lambda>signature. success (run (sig_command E signature))
                          \<and> trim (message (run (sig_command E signature))) = selector)
       (map trim (filter spec_candidate (split_lines fileContent)))"

text \<open>The entry of a selector: without a signature file there are no local candidates.\<close>

definition steady_matches ::
  "'w env \<Rightarrow> (string \<Rightarrow> cmd_result) \<Rightarrow> string option \<Rightarrow> string \<Rightarrow> string \<Rightarrow> matches" where
  "steady_matches E run signatureFile fileContent selector =
     \<lparr>online = steady_online E run selector,
      local_sigs = (case signatureFile of
                      None \<Rightarrow> []
                    | Some path \<Rightarrow> steady_local E run fileContent selector)\<rparr>"

section \<open>A sample environment\<close>

text \<open>
  A toolchain with fixed answers, for evaluating the entry points on concrete requests:
  \<open>cast sig\<close> knows two signatures, the directory knows three selectors (one of them
  with seven candidates), the trace of transaction \<open>0x01\<close> calls one selector twice, the
  trace of \<open>0x02\<close> calls none, the trace of \<open>0x03\<close> calls two, and the only file is
  \<open>sigs.txt\<close>. Its world is the list of the commands run so far.
\<close>

definition sample_trace :: string where
  "sample_trace = ''CALL 0xa9059cbb to 0x1111111111111111111111111111111111111111, then 0xa9059cbb''"

definition sample_file :: string where
  "sample_file = ''# ERC20'' @ [LF] @ ''  transfer(address,uint256)  '' @ [LF] @ [LF]
     @ ''not a signature'' @ [LF] @ ''Transfer(address,address,uint256)'' @ [LF] @ ''#x('' @ [LF]
     @ ''  #y('' @ [LF]"

definition sample_rpc :: string where
  "sample_rpc = ''http://localhost:8545''"

definition sample_exec :: "string \<Rightarrow> string list \<Rightarrow> (string + string \<times> string) \<times> string list" where
  "sample_exec command w =
     ((if command = ''forge --version'' then Inr (''forge 1.0.0'', [])
       else if command = ''cast sig '' @ [DQ] @ ''transfer(address,uint256)'' @ [DQ]
       then Inr (''0xa9059cbb'' @ [LF], [])
       else if command = ''cast sig '' @ [DQ] @ ''Transfer(address,address,uint256)'' @ [DQ]
       then Inr (''0xddf252ad'' @ [LF], [])
       else if command = ''cast 4byte 0xa9059cbb''
             \<or> command = ''cast 4byte 0xa9059cbb --rpc-url '' @ [DQ] @ sample_rpc @ [DQ]
       then Inr (''transfer(address,uint256)'' @ [LF] @ ''many_msg_babbage(bytes1)'' @ [LF], [])
       else if command = ''cast 4byte 0x12345678 --rpc-url '' @ [DQ] @ sample_rpc @ [DQ]
       then Inr (''a$$b(uint256)'' @ [LF], [])
       else if command = ''cast run 0x01 --trace --verbosity 4 --rpc-url '' @ [DQ] @ sample_rpc @ [DQ]
       then Inr (sample_trace, [])
       else if command = ''cast run 0x02 --trace --verbosity 4 --rpc-url '' @ [DQ] @ sample_rpc @ [DQ]
       then Inr (''CALL 0x1234'', [])
       else if command = ''cast 4byte 0x70a08231''
       then Inr (''balanceOf(address)'' @ [LF] @ ''b1()'' @ [LF] @ ''b2()'' @ [LF] @ ''b3()'' @ [LF]
                 @ ''b4()'' @ [LF] @ ''b5()'' @ [LF] @ ''b6()'' @ [LF], [])
       else if command = ''cast run 0x03 --trace --verbosity 4 --rpc-url '' @ [DQ] @ sample_rpc @ [DQ]
       then Inr (''CALL 0x70a08231 then 0xa9059cbb'', [])
       else Inl ''command failed''), w @ [command])"

definition sample_env :: "string list env" where
  "sample_env =
     \<lparr>castPath = ''cast'', forgePath = ''forge'',
      FOUNDRY_NOT_INSTALLED_ERROR = ''Foundry tools are not installed.'',
      execAsync = sample_exec,
      fs_access = (\<lambda>path w. (path = ''sigs.txt'', w)),
      fs_readFile = (\<lambda>path w. (if path = ''sigs.txt'' then Inr sample_file else Inl ''ENOENT'', w)),
      resolveRpcUrl = (\<lambda>rpcUrl w. (rpcUrl, w))\<rparr>"

section \<open>The selector extractor\<close>

lemma match_indices_props:
  "i \<in> set (match_indices t k) \<Longrightarrow> k \<le> i \<and> i < length t \<and> selector_here (drop i t)"
proof (induction t k rule: match_indices.induct)
  case (1 t k)
  show ?case
  proof (cases "length t \<le> k")
    case True
    with "1.prems" show ?thesis by (simp add: match_indices.simps [of t k])
  next
    case False
    show ?thesis
    proof (cases "selector_here (drop k t)")
      case True
      with False "1.prems" have "i = k \<or> i \<in> set (match_indices t (k + 10))"
        by (simp add: match_indices.simps [of t k])
      then show ?thesis
      proof
        assume "i = k" with False True show ?thesis by simp
      next
        assume "i \<in> set (match_indices t (k + 10))"
        with "1.IH"(1) [OF False True] show ?thesis by simp
      qed
    next
      case no: False
      with False "1.prems" have "i \<in> set (match_indices t (k + 1))"
        by (simp add: match_indices.simps [of t k])
      with "1.IH"(2) [OF False no] show ?thesis by simp
    qed
  qed
qed

lemma match_indices_sorted: "sorted_wrt (<) (match_indices t k)"
proof (induction t k rule: match_indices.induct)
  case (1 t k)
  show ?case
  proof (cases "length t \<le> k")
    case True
    then show ?thesis by (simp add: match_indices.simps [of t k])
  next
    case False
    show ?thesis
    proof (cases "selector_here (drop k t)")
      case True
      have "\<forall>j \<in> set (match_indices t (k + 10)). k < j"
        using match_indices_props [of _ t "k + 10"] by fastforce
      with "1.IH"(1) [OF False True] False True show ?thesis
        by (simp add: match_indices.simps [of t k])
    next
      case no: False
      with "1.IH"(2) [OF False no] False show ?thesis
        by (simp add: match_indices.simps [of t k])
    qed
  qed
qed

lemma set_add_all_append:
  "set_add_all (a @ b) xs = a @ set_add_all b (filter (\<lambda>y. y \<notin> set a) xs)"
  by (induction xs arbitrary: b) auto

lemma set_add_all_Cons:
  "set_add_all [] (x # xs) = x # set_add_all [] (filter (\<lambda>y. y \<noteq> x) xs)"
  using set_add_all_append [of "[x]" "[]" xs] by simp

lemma set_set_add_all: "set (set_add_all acc xs) = set acc \<union> set xs"
  by (induction xs arbitrary: acc) auto

lemma distinct_set_add_all: "distinct acc \<Longrightarrow> distinct (set_add_all acc xs)"
  by (induction xs arbitrary: acc) auto

lemma find_filter_same:
  "(\<And>x. P x \<Longrightarrow> Q x) \<Longrightarrow> find P (filter Q xs) = find P xs"
  by (induction xs) auto

lemma first_occurrence_order:
  "sorted_wrt (<) (is :: nat list) \<Longrightarrow>
   \<exists>ps. map (\<lambda>s. find (\<lambda>i. f i = s) is) (set_add_all [] (map f is)) = map Some ps
       \<and> sorted_wrt (<) ps \<and> set ps \<subseteq> set is"
proof (induction "length is" arbitrary: "is" rule: less_induct)
  case less
  show ?case
  proof (cases "is")
    case Nil
    then show ?thesis by simp
  next
    case (Cons i rest)
    define rest' where "rest' = filter (\<lambda>j. f j \<noteq> f i) rest"
    have srt: "sorted_wrt (<) rest'" and gt: "\<forall>j \<in> set rest'. i < j"
      using less.prems Cons by (auto simp: rest'_def sorted_wrt_filter)
    have len: "length rest' < length is"
      using Cons by (simp add: rest'_def less_Suc_eq_le)
    from less.hyps [OF len srt] obtain ps where
      ps: "map (\<lambda>s. find (\<lambda>i. f i = s) rest') (set_add_all [] (map f rest')) = map Some ps"
        "sorted_wrt (<) ps" "set ps \<subseteq> set rest'"
      by blast
    have out: "set_add_all [] (map f is) = f i # set_add_all [] (map f rest')"
      unfolding Cons rest'_def list.map set_add_all_Cons filter_map comp_def ..
    have same: "find (\<lambda>j. f j = s) is = find (\<lambda>j. f j = s) rest'"
      if "s \<in> set (set_add_all [] (map f rest'))" for s
    proof -
      from that have "s \<in> f ` set rest'" by (simp add: set_set_add_all)
      then have ne: "s \<noteq> f i" by (auto simp: rest'_def)
      have "find (\<lambda>j. f j = s) rest' = find (\<lambda>j. f j = s) rest"
        unfolding rest'_def using ne by (intro find_filter_same) auto
      with ne show ?thesis by (auto simp: Cons)
    qed
    have first: "find (\<lambda>j. f j = f i) is = Some i"
      by (simp add: Cons)
    have later: "map (\<lambda>s. find (\<lambda>i. f i = s) is) (set_add_all [] (map f rest'))
        = map (\<lambda>s. find (\<lambda>i. f i = s) rest') (set_add_all [] (map f rest'))"
      by (rule map_cong [OF refl]) (rule same)
    have "map (\<lambda>s. find (\<lambda>i. f i = s) is) (set_add_all [] (map f is)) = map Some (i # ps)"
      unfolding out by (simp only: list.map first later ps(1))
    moreover have "sorted_wrt (<) (i # ps)" using ps(2,3) gt by auto
    moreover have "set (i # ps) \<subseteq> set is" using ps(3) by (auto simp: Cons rest'_def)
    ultimately show ?thesis by blast
  qed
qed


text \<open>
  Claim C1. Every string the extractor returns is \<open>0x\<close> followed by exactly eight hex
  digits, and it is the text of an occurrence in the trace that no hex digit follows:
  the occurrence starts at some index \<open>i\<close>, fits into the text, and the text after it
  does not begin with a hex digit. Both entry points extract with the same expression.
\<close>

theorem extracted_selectors_wellformed:
  "s \<in> set (extract_selectors t) \<Longrightarrow>
   valid_selector s \<and>
   (\<exists>i. i + 10 \<le> length t \<and> take 10 (drop i t) = s \<and> \<not> hex_follows (drop (i + 10) t))"
proof -
  assume "s \<in> set (extract_selectors t)"
  then have "s \<in> set (match_selectors t)"
    by (simp add: extract_selectors_def set_set_add_all)
  then obtain i where i: "i \<in> set (match_indices t 0)" "s = take 10 (drop i t)"
    by (auto simp: match_selectors_def)
  from match_indices_props [OF i(1)] have here: "selector_here (drop i t)" by simp
  then have v: "valid_selector s" and nf: "\<not> hex_follows (drop (i + 10) t)"
    by (simp_all add: selector_here_def i(2) add.commute)
  from v have "length (take 10 (drop i t)) = 10" by (simp add: valid_selector_def i(2))
  then have "i + 10 \<le> length t" by simp
  with v nf i(2) show ?thesis by blast
qed

theorem extracted_selectors_wellformed_witness:
  "''0xa9059cbb'' \<in> set (extract_selectors sample_trace) \<and>
   valid_selector ''0xa9059cbb'' \<and>
   (\<exists>i. i + 10 \<le> length sample_trace \<and> take 10 (drop i sample_trace) = ''0xa9059cbb''
      \<and> \<not> hex_follows (drop (i + 10) sample_trace))"
proof -
  have m: "''0xa9059cbb'' \<in> set (extract_selectors sample_trace)"
    by code_simp
  from extracted_selectors_wellformed [OF m] m show ?thesis by blast
qed

text \<open>
  Claim C2. The extracted list is a function of the text alone; it holds every matched
  selector string once; and its order is the order of first occurrence: the indices at
  which the scan first matched the listed selectors increase strictly along the list.
\<close>

theorem extracted_selectors_first_occurrence_order:
  "distinct (extract_selectors t) \<and>
   set (extract_selectors t) = set (match_selectors t) \<and>
   (\<exists>ps. map (first_match_index t) (extract_selectors t) = map Some ps \<and> sorted_wrt (<) ps)"
proof -
  have "distinct (extract_selectors t)"
    by (simp add: extract_selectors_def distinct_set_add_all)
  moreover have "set (extract_selectors t) = set (match_selectors t)"
    by (simp add: extract_selectors_def set_set_add_all)
  moreover from first_occurrence_order [OF match_indices_sorted, of "\<lambda>i. take 10 (drop i t)" t 0]
  have "\<exists>ps. map (first_match_index t) (extract_selectors t) = map Some ps \<and> sorted_wrt (<) ps"
    unfolding extract_selectors_def match_selectors_def first_match_index_def by blast
  ultimately show ?thesis by blast
qed

theorem extracted_selectors_first_occurrence_order_witness:
  "extract_selectors ''0xBBBBBBBB 0xaaaaaaaa 0xBBBBBBBB 0xaaaaaaaaf'' = [''0xBBBBBBBB'', ''0xaaaaaaaa''] \<and>
   map (first_match_index ''0xBBBBBBBB 0xaaaaaaaa 0xBBBBBBBB 0xaaaaaaaaf'')
     (extract_selectors ''0xBBBBBBBB 0xaaaaaaaa 0xBBBBBBBB 0xaaaaaaaaf'') = [Some 0, Some 11] \<and>
   distinct (extract_selectors ''0xBBBBBBBB 0xaaaaaaaa 0xBBBBBBBB 0xaaaaaaaaf'')"
proof -
  have "extract_selectors ''0xBBBBBBBB 0xaaaaaaaa 0xBBBBBBBB 0xaaaaaaaaf'' = [''0xBBBBBBBB'', ''0xaaaaaaaa'']"
    by code_simp
  moreover have "map (first_match_index ''0xBBBBBBBB 0xaaaaaaaa 0xBBBBBBBB 0xaaaaaaaaf'')
     (extract_selectors ''0xBBBBBBBB 0xaaaaaaaa 0xBBBBBBBB 0xaaaaaaaaf'') = [Some 0, Some 11]"
    by code_simp
  ultimately show ?thesis
    using extracted_selectors_first_occurrence_order [of "''0xBBBBBBBB 0xaaaaaaaa 0xBBBBBBBB 0xaaaaaaaaf''"]
    by blast
qed

section \<open>The local signature file\<close>

lemma set_dropWhile_keeps: "x \<in> set xs \<Longrightarrow> \<not> P x \<Longrightarrow> x \<in> set (dropWhile P xs)"
  by (induction xs) auto

lemma includes_char_trim:
  "\<not> is_js_space c \<Longrightarrow> includes_char (trim l) c = includes_char l c"
proof -
  assume ns: "\<not> is_js_space c"
  have "c \<in> set (trim l) \<Longrightarrow> c \<in> set l"
  proof -
    assume "c \<in> set (trim l)"
    then have "c \<in> set (dropWhile is_js_space (rev (dropWhile is_js_space l)))"
      by (simp add: trim_def)
    then have "c \<in> set (rev (dropWhile is_js_space l))" by (rule set_dropWhileD)
    then have "c \<in> set (dropWhile is_js_space l)" by simp
    then show "c \<in> set l" by (rule set_dropWhileD)
  qed
  moreover have "c \<in> set l \<Longrightarrow> c \<in> set (trim l)"
    unfolding trim_def using ns by (simp add: set_dropWhile_keeps)
  ultimately show ?thesis unfolding includes_char_def by blast
qed

lemma paren_not_space: "\<not> is_js_space (CHR ''('')"
  by (simp add: is_js_space_def)

lemma match_signatures_skips_non_candidates:
  "match_signatures E fuzzyMatch selector signatures acc w =
   match_signatures E fuzzyMatch selector
     (filter (\<lambda>line. includes_char line (CHR ''('')) signatures) acc w"
  by (induction signatures arbitrary: acc w) (auto split: prod.splits simp: Let_def)

lemma candidate_lines_4byte:
  "filter (\<lambda>line. includes_char line (CHR ''('')) (file_signatures fileContent)
     = map trim (filter spec_candidate (split_lines fileContent))"
  unfolding file_signatures_def spec_candidate_def
  by (simp add: filter_map comp_def includes_char_trim [OF paren_not_space] conj_ac)

lemma candidate_lines_trace:
  "trace_file_signatures fileContent = map trim (filter spec_candidate (split_lines fileContent))"
  unfolding trace_file_signatures_def spec_candidate_def
  by (simp add: filter_map comp_def includes_char_trim [OF paren_not_space] conj_ac)

lemma match_signatures_step:
  "includes_char signature (CHR ''('') \<Longrightarrow>
   executeCommand E (sig_command E signature) w = (r, w') \<Longrightarrow>
   match_signatures E fuzzyMatch selector (signature # rest) acc w =
   match_signatures E fuzzyMatch selector rest
     (acc @ (if success r \<and> trim (message r) = selector then [signature]
             else if fuzzyMatch \<and> success r \<and> take 6 (trim (message r)) = take 6 selector
             then [signature @ '' (partial match: '' @ trim (message r) @ '')'']
             else [])) w'"
  by (simp add: Let_def)

lemma match_signatures_stable:
  assumes stable: "\<forall>s w. fst (executeCommand E (sig_command E s) w) = answer s"
  shows "fst (match_signatures E fuzzyMatch selector signatures acc w) =
     acc @ concat (map (\<lambda>signature.
         if \<not> includes_char signature (CHR ''('') then []
         else if success (answer signature) \<and> trim (message (answer signature)) = selector
         then [signature]
         else if fuzzyMatch \<and> success (answer signature)
                 \<and> take 6 (trim (message (answer signature))) = take 6 selector
         then [signature @ '' (partial match: '' @ trim (message (answer signature)) @ '')'']
         else []) signatures)"
proof (induction signatures arbitrary: acc w)
  case Nil
  show ?case by simp
next
  case (Cons s rest)
  show ?case
  proof (cases "includes_char s (CHR ''('')")
    case False
    then show ?thesis using Cons.IH [of acc w] by simp
  next
    case True
    obtain r w' where run: "executeCommand E (sig_command E s) w = (r, w')"
      by (cases "executeCommand E (sig_command E s) w")
    have r: "r = answer s" using stable run by (metis fst_conv)
    show ?thesis
      unfolding match_signatures_step [OF True run] Cons.IH
      using True by (simp add: r)
  qed
qed

lemma local_signatures_steady:
  assumes stable: "\<forall>cmd w. fst (executeCommand E cmd w) = run cmd"
  shows "fst (local_signatures E selector signatures acc w) =
     acc @ filter (\<lambda>signature. success (run (sig_command E signature))
                                 \<and> trim (message (run (sig_command E signature))) = selector)
             signatures"
proof (induction signatures arbitrary: acc w)
  case Nil
  show ?case by simp
next
  case (Cons s rest)
  obtain r w' where ex: "executeCommand E (sig_command E s) w = (r, w')"
    by (cases "executeCommand E (sig_command E s) w")
  have r: "r = run (sig_command E s)" using stable ex by (metis fst_conv)
  show ?case
    using Cons.IH [of "acc @ [s]" w'] Cons.IH [of acc w']
    by (simp add: ex r)
qed

lemma lookup_local_steady:
  assumes stable: "\<forall>cmd w. fst (executeCommand E cmd w) = run cmd"
    and path: "path \<noteq> []"
    and acc: "\<forall>w. fst (fs_access E path w) = True"
    and rd: "\<forall>w. fst (fs_readFile E path w) = Inr fileContent"
  shows "\<exists>w'. lookup_local E selector (Some path) w
            = (Returned (steady_local E run fileContent selector), w')"
proof -
  obtain b w1 where a: "fs_access E path w = (b, w1)" by (cases "fs_access E path w")
  have b: "b = True" using acc a by (metis fst_conv)
  obtain x w2 where f: "fs_readFile E path w1 = (x, w2)" by (cases "fs_readFile E path w1")
  have x: "x = Inr fileContent" using rd f by (metis fst_conv)
  obtain ls w3 where l: "local_signatures E selector (trace_file_signatures fileContent) [] w2 = (ls, w3)"
    by (cases "local_signatures E selector (trace_file_signatures fileContent) [] w2")
  have "ls = fst (local_signatures E selector (trace_file_signatures fileContent) [] w2)"
    using l by simp
  then have ls: "ls = steady_local E run fileContent selector"
    by (simp add: local_signatures_steady [OF stable] steady_local_def candidate_lines_trace)
  show ?thesis
    using path a b f x l ls by (simp add: lookup_local_def)
qed

lemma update_fresh: "k \<notin> fst ` set m \<Longrightarrow> AList.update k v m = m @ [(k, v)]"
  by (induction m) auto

lemma match_selectors_steady:
  fixes selectors :: "string list" and selectorMap :: "(string \<times> matches) list"
  assumes stable: "\<forall>cmd w. fst (executeCommand E cmd w) = run cmd"
    and look: "\<And>selector w. \<exists>w'. lookup_local E selector signatureFile w = (Returned (loc selector), w')"
  shows "distinct selectors \<Longrightarrow> set selectors \<inter> fst ` set selectorMap = {} \<Longrightarrow>
     \<exists>w'. match_selectors_with_signatures E signatureFile selectors selectorMap w =
       (Returned (selectorMap @ map (\<lambda>selector.
           (selector, \<lparr>online = steady_online E run selector, local_sigs = loc selector\<rparr>)) selectors), w')"
proof (induction selectors arbitrary: selectorMap w)
  case Nil
  show ?case by simp
next
  case (Cons s rest)
  obtain r w1 where ex: "executeCommand E (castPath E @ '' 4byte '' @ s) w = (r, w1)"
    by (cases "executeCommand E (castPath E @ '' 4byte '' @ s) w")
  have r: "r = run (castPath E @ '' 4byte '' @ s)" using stable ex by (metis fst_conv)
  from look [of s w1] obtain w2 where l: "lookup_local E s signatureFile w1 = (Returned (loc s), w2)"
    by blast
  define entry where "entry = \<lparr>online = steady_online E run s, local_sigs = loc s\<rparr>"
  have fresh: "s \<notin> fst ` set selectorMap" using Cons.prems(2) by auto
  have upd: "AList.update s entry selectorMap = selectorMap @ [(s, entry)]"
    using fresh by (rule update_fresh)
  have d: "distinct rest" using Cons.prems(1) by simp
  have disj: "set rest \<inter> fst ` set (selectorMap @ [(s, entry)]) = {}"
    using Cons.prems by auto
  from Cons.IH [OF d disj, of w2] obtain w' where
    ih: "match_selectors_with_signatures E signatureFile rest (selectorMap @ [(s, entry)]) w2 =
       (Returned ((selectorMap @ [(s, entry)]) @ map (\<lambda>selector.
           (selector, \<lparr>online = steady_online E run selector, local_sigs = loc selector\<rparr>)) rest), w')"
    by blast
  have on: "(if success r \<and> trim (message r) \<noteq> [] then parse_signatures (message r) else [])
      = steady_online E run s"
    by (simp add: steady_online_def r Let_def)
  have "match_selectors_with_signatures E signatureFile (s # rest) selectorMap w =
      match_selectors_with_signatures E signatureFile rest (AList.update s entry selectorMap) w2"
    using ex l on by (simp add: Let_def entry_def)
  then show ?case
    unfolding upd ih by (simp add: entry_def)
qed


lemma map_of_tabulate:
  "map_of (map (\<lambda>k. (k, f k)) ks) k = (if k \<in> set ks then Some (f k) else None)"
  by (induction ks) auto

lemma lookup_local_steady_matches:
  assumes stable: "\<forall>cmd w. fst (executeCommand E cmd w) = run cmd"
    and sigfile: "\<forall>path. signatureFile = Some path \<longrightarrow>
        path \<noteq> [] \<and> (\<forall>w. fst (fs_access E path w) = True)
        \<and> (\<forall>w. fst (fs_readFile E path w) = Inr fileContent)"
  shows "\<exists>w'. lookup_local E selector signatureFile w
      = (Returned (local_sigs (steady_matches E run signatureFile fileContent selector)), w')"
proof (cases signatureFile)
  case None
  then show ?thesis by (simp add: lookup_local_def steady_matches_def)
next
  case (Some path)
  with sigfile have "path \<noteq> []" "\<forall>w. fst (fs_access E path w) = True"
    "\<forall>w. fst (fs_readFile E path w) = Inr fileContent"
    by blast+
  from lookup_local_steady [OF stable this, of selector w]
  show ?thesis by (simp add: Some steady_matches_def)
qed

lemma analyze_steady:
  assumes inst: "checkFoundryInstalled E w = (True, w1)"
    and res: "resolveRpcUrl E rpcUrl w1 = (url, w2)"
    and tr: "executeCommand E (trace_command E txHash url knownAddresses) w2 = (traceResult, w3)"
    and ok: "success traceResult"
    and ne: "extract_selectors (message traceResult) \<noteq> []"
    and stable: "\<forall>cmd w. fst (executeCommand E cmd w) = run cmd"
    and sigfile: "\<forall>path. signatureFile = Some path \<longrightarrow>
        path \<noteq> [] \<and> (\<forall>w. fst (fs_access E path w) = True)
        \<and> (\<forall>w. fst (fs_readFile E path w) = Inr fileContent)"
  shows "\<exists>w'. analyze_transaction_trace E txHash rpcUrl signatureFile knownAddresses w =
     (Returned
        \<lparr>text_of =
           build_report txHash (extract_selectors (message traceResult))
             (map (\<lambda>selector. (selector, steady_matches E run signatureFile fileContent selector))
                (extract_selectors (message traceResult)))
           @ ''Simplified trace with function names:'' @ [LF, LF]
           @ simplify_trace
               (map (\<lambda>selector. (selector, steady_matches E run signatureFile fileContent selector))
                  (extract_selectors (message traceResult)))
               (message traceResult),
         isError = False\<rparr>, w')"
proof -
  let ?sels = "extract_selectors (message traceResult)"
  let ?loc = "\<lambda>selector. local_sigs (steady_matches E run signatureFile fileContent selector)"
  have d: "distinct ?sels" by (simp add: extract_selectors_def distinct_set_add_all)
  have look: "\<And>selector w. \<exists>w'. lookup_local E selector signatureFile w = (Returned (?loc selector), w')"
    using lookup_local_steady_matches [OF stable sigfile] by blast
  have "\<exists>w'. match_selectors_with_signatures E signatureFile ?sels [] w3 =
       (Returned ([] @ map (\<lambda>selector.
           (selector, \<lparr>online = steady_online E run selector, local_sigs = ?loc selector\<rparr>)) ?sels), w')"
    by (rule match_selectors_steady [OF stable look d]) simp
  moreover have "(\<lambda>selector. (selector, \<lparr>online = steady_online E run selector, local_sigs = ?loc selector\<rparr>))
      = (\<lambda>selector. (selector, steady_matches E run signatureFile fileContent selector))"
    by (simp add: steady_matches_def fun_eq_iff)
  ultimately obtain w' where m: "match_selectors_with_signatures E signatureFile ?sels [] w3 =
       (Returned (map (\<lambda>selector. (selector, steady_matches E run signatureFile fileContent selector)) ?sels), w')"
    by auto
  show ?thesis
    using inst res tr ok ne m
    by (simp add: analyze_transaction_trace_def Let_def)
qed

text \<open>cast_4byte_from_file once the file has been read.\<close>

lemma cast_4byte_from_file_reads:
  assumes inst: "checkFoundryInstalled E w = (True, w1)"
    and valid: "valid_selector selector"
    and dir: "executeCommand E (castPath E @ '' 4byte '' @ selector) w1 = (onlineResult, w2)"
    and acc: "fs_access E filePath w2 = (True, w3)"
    and rd: "fs_readFile E filePath w3 = (Inr fileContent, w4)"
    and ne: "file_signatures fileContent \<noteq> []"
  shows "cast_4byte_from_file E selector filePath fuzzyMatch w =
     (case match_signatures E fuzzyMatch selector
             (map trim (filter spec_candidate (split_lines fileContent))) [] w4 of
        (matchingSignatures, w5) \<Rightarrow>
          (\<lparr>text_of = compile_results selector matchingSignatures
                         (if success onlineResult \<and> trim (message onlineResult) \<noteq> []
                          then parse_signatures (message onlineResult) else []),
            isError = False\<rparr>, w5))"
proof -
  have loop: "match_signatures E fuzzyMatch selector (file_signatures fileContent) [] w4
      = match_signatures E fuzzyMatch selector
          (map trim (filter spec_candidate (split_lines fileContent))) [] w4"
    using match_signatures_skips_non_candidates
            [of E fuzzyMatch selector "file_signatures fileContent" "[]" w4]
    by (simp only: candidate_lines_4byte)
  show ?thesis
    using inst valid dir acc rd ne
    by (simp add: cast_4byte_from_file_def Let_def loop)
qed

lemma cast_4byte_from_file_steady:
  assumes inst: "checkFoundryInstalled E w = (True, w1)"
    and valid: "valid_selector selector"
    and stable: "\<forall>cmd w. fst (executeCommand E cmd w) = run cmd"
    and acc: "\<forall>w. fst (fs_access E filePath w) = True"
    and rd: "\<forall>w. fst (fs_readFile E filePath w) = Inr fileContent"
    and ne: "file_signatures fileContent \<noteq> []"
  shows "fst (cast_4byte_from_file E selector filePath fuzzyMatch w) =
     \<lparr>text_of = compile_results selector
        (concat (map (\<lambda>signature.
            if \<not> includes_char signature (CHR ''('') then []
            else if success (run (sig_command E signature))
                    \<and> trim (message (run (sig_command E signature))) = selector
            then [signature]
            else if fuzzyMatch \<and> success (run (sig_command E signature))
                    \<and> take 6 (trim (message (run (sig_command E signature)))) = take 6 selector
            then [signature @ '' (partial match: ''
                    @ trim (message (run (sig_command E signature))) @ '')'']
            else []) (file_signatures fileContent)))
        (steady_online E run selector),
       isError = False\<rparr>"
proof -
  obtain r w2 where dir: "executeCommand E (castPath E @ '' 4byte '' @ selector) w1 = (r, w2)"
    by (cases "executeCommand E (castPath E @ '' 4byte '' @ selector) w1")
  have r: "r = run (castPath E @ '' 4byte '' @ selector)" using stable dir by (metis fst_conv)
  obtain b w3 where a: "fs_access E filePath w2 = (b, w3)" by (cases "fs_access E filePath w2")
  have b: "b = True" using acc a by (metis fst_conv)
  obtain x w4 where f: "fs_readFile E filePath w3 = (x, w4)" by (cases "fs_readFile E filePath w3")
  have x: "x = Inr fileContent" using rd f by (metis fst_conv)
  obtain ms w5 where l: "match_signatures E fuzzyMatch selector (file_signatures fileContent) [] w4 = (ms, w5)"
    by (cases "match_signatures E fuzzyMatch selector (file_signatures fileContent) [] w4")
  have st: "\<forall>s w. fst (executeCommand E (sig_command E s) w) = (\<lambda>s. run (sig_command E s)) s"
    using stable by simp
  have "ms = fst (match_signatures E fuzzyMatch selector (file_signatures fileContent) [] w4)"
    using l by simp
  also note match_signatures_stable [OF st, of fuzzyMatch selector "file_signatures fileContent" "[]" w4]
  finally have ms: "ms = concat (map (\<lambda>signature.
            if \<not> includes_char signature (CHR ''('') then []
            else if success (run (sig_command E signature))
                    \<and> trim (message (run (sig_command E signature))) = selector
            then [signature]
            else if fuzzyMatch \<and> success (run (sig_command E signature))
                    \<and> take 6 (trim (message (run (sig_command E signature)))) = take 6 selector
            then [signature @ '' (partial match: ''
                    @ trim (message (run (sig_command E signature))) @ '')'']
            else []) (file_signatures fileContent))"
    by simp
  have on: "(if success r \<and> trim (message r) \<noteq> [] then parse_signatures (message r) else [])
      = steady_online E run selector"
    by (simp add: steady_online_def r Let_def)
  have "cast_4byte_from_file E selector filePath fuzzyMatch w =
      (\<lparr>text_of = compile_results selector ms (steady_online E run selector), isError = False\<rparr>, w5)"
    using inst valid dir a b f x ne l on
    by (simp add: cast_4byte_from_file_def Let_def)
  then show ?thesis unfolding ms by simp
qed

lemma compile_results_text:
  "compile_results selector matchingSignatures onlineSignatures =
     ''Results for selector '' @ selector @ '':'' @ [LF, LF]
     @ (if matchingSignatures = []
        then ''No matching signatures found in local file.'' @ [LF, LF]
        else ''Matching signatures from local file:'' @ [LF]
             @ join [LF] matchingSignatures @ [LF, LF])
     @ (if onlineSignatures = []
        then ''No signatures found in 4byte directory.''
        else ''Possible signatures from 4byte directory:'' @ [LF]
             @ join [LF] onlineSignatures)"
  by (simp add: compile_results_def)

text \<open>
  Claim C9. In both entry points the lines handed to the \<open>sig\<close> primitive are the trimmed
  lines of the file that are not blank after trimming, do not start with \<open>#\<close> and contain
  \<open>(\<close>, in file order. \<open>analyze_transaction_trace\<close> filters for exactly these lines and
  runs its loop over them; \<open>cast_4byte_from_file\<close> filters the first two conditions and its
  loop skips a line without \<open>(\<close> before any command runs. So \<open>cast_4byte_from_file\<close>, once
  it has read a file with at least one line left by its filter, returns what the loop over
  the candidate lines returns, in the world that loop leaves; and
  \<open>analyze_transaction_trace\<close>, under a steady toolchain, reports as the local matches of
  each selector exactly the candidate lines whose computed selector equals it.
\<close>

theorem candidate_lines_of_signature_file:
  "trace_file_signatures fileContent = map trim (filter spec_candidate (split_lines fileContent))
   \<and> filter (\<lambda>line. includes_char line (CHR ''('')) (file_signatures fileContent)
       = map trim (filter spec_candidate (split_lines fileContent))
   \<and> match_signatures E fuzzyMatch selector (file_signatures fileContent) acc w
       = match_signatures E fuzzyMatch selector
           (map trim (filter spec_candidate (split_lines fileContent))) acc w
   \<and> (filePath \<noteq> [] \<and> fs_access E filePath w = (True, w1)
        \<and> fs_readFile E filePath w1 = (Inr fileContent, w2) \<longrightarrow>
      lookup_local E selector (Some filePath) w =
        (case local_signatures E selector
                (map trim (filter spec_candidate (split_lines fileContent))) [] w2 of
           (localSignatures, w3) \<Rightarrow> (Returned localSignatures, w3)))
   \<and> (checkFoundryInstalled E w = (True, v1) \<and> valid_selector selector
        \<and> executeCommand E (castPath E @ '' 4byte '' @ selector) v1 = (onlineResult, v2)
        \<and> fs_access E filePath v2 = (True, v3)
        \<and> fs_readFile E filePath v3 = (Inr fileContent, v4)
        \<and> file_signatures fileContent \<noteq> [] \<longrightarrow>
      cast_4byte_from_file E selector filePath fuzzyMatch w =
        (case match_signatures E fuzzyMatch selector
                (map trim (filter spec_candidate (split_lines fileContent))) [] v4 of
           (matchingSignatures, v5) \<Rightarrow>
             (\<lparr>text_of = compile_results selector matchingSignatures
                            (if success onlineResult \<and> trim (message onlineResult) \<noteq> []
                             then parse_signatures (message onlineResult) else []),
               isError = False\<rparr>, v5)))
   \<and> (checkFoundryInstalled E w = (True, u1) \<and> resolveRpcUrl E rpcUrl u1 = (url, u2)
        \<and> executeCommand E (trace_command E txHash url knownAddresses) u2 = (traceResult, u3)
        \<and> success traceResult \<and> extract_selectors (message traceResult) \<noteq> []
        \<and> (\<forall>cmd w. fst (executeCommand E cmd w) = run cmd)
        \<and> filePath \<noteq> [] \<and> (\<forall>w. fst (fs_access E filePath w) = True)
        \<and> (\<forall>w. fst (fs_readFile E filePath w) = Inr fileContent) \<longrightarrow>
      (\<exists>w'. analyze_transaction_trace E txHash rpcUrl (Some filePath) knownAddresses w =
         (Returned
            \<lparr>text_of =
               build_report txHash (extract_selectors (message traceResult))
                 (map (\<lambda>selector. (selector,
                     \<lparr>online = steady_online E run selector,
                      local_sigs =
                        filter (\<lambda>signature. success (run (sig_command E signature))
                                  \<and> trim (message (run (sig_command E signature))) = selector)
                          (map trim (filter spec_candidate (split_lines fileContent)))\<rparr>))
                    (extract_selectors (message traceResult)))
               @ ''Simplified trace with function names:'' @ [LF, LF]
               @ simplify_trace
                   (map (\<lambda>selector. (selector,
                       \<lparr>online = steady_online E run selector,
                        local_sigs =
                          filter (\<lambda>signature. success (run (sig_command E signature))
                                    \<and> trim (message (run (sig_command E signature))) = selector)
                            (map trim (filter spec_candidate (split_lines fileContent)))\<rparr>))
                      (extract_selectors (message traceResult)))
                   (message traceResult),
              isError = False\<rparr>, w')))"
proof (intro conjI impI)
  show "trace_file_signatures fileContent = map trim (filter spec_candidate (split_lines fileContent))"
    by (rule candidate_lines_trace)
next
  show "filter (\<lambda>line. includes_char line (CHR ''('')) (file_signatures fileContent)
       = map trim (filter spec_candidate (split_lines fileContent))"
    by (rule candidate_lines_4byte)
next
  show "match_signatures E fuzzyMatch selector (file_signatures fileContent) acc w
       = match_signatures E fuzzyMatch selector
           (map trim (filter spec_candidate (split_lines fileContent))) acc w"
    using match_signatures_skips_non_candidates
            [of E fuzzyMatch selector "file_signatures fileContent" acc w]
    by (simp only: candidate_lines_4byte)
next
  assume "filePath \<noteq> [] \<and> fs_access E filePath w = (True, w1)
        \<and> fs_readFile E filePath w1 = (Inr fileContent, w2)"
  then show "lookup_local E selector (Some filePath) w =
        (case local_signatures E selector
                (map trim (filter spec_candidate (split_lines fileContent))) [] w2 of
           (localSignatures, w3) \<Rightarrow> (Returned localSignatures, w3))"
    by (simp add: lookup_local_def candidate_lines_trace)
next
  assume a: "checkFoundryInstalled E w = (True, v1) \<and> valid_selector selector
        \<and> executeCommand E (castPath E @ '' 4byte '' @ selector) v1 = (onlineResult, v2)
        \<and> fs_access E filePath v2 = (True, v3)
        \<and> fs_readFile E filePath v3 = (Inr fileContent, v4)
        \<and> file_signatures fileContent \<noteq> []"
  show "cast_4byte_from_file E selector filePath fuzzyMatch w =
        (case match_signatures E fuzzyMatch selector
                (map trim (filter spec_candidate (split_lines fileContent))) [] v4 of
           (matchingSignatures, v5) \<Rightarrow>
             (\<lparr>text_of = compile_results selector matchingSignatures
                            (if success onlineResult \<and> trim (message onlineResult) \<noteq> []
                             then parse_signatures (message onlineResult) else []),
               isError = False\<rparr>, v5))"
    by (rule cast_4byte_from_file_reads) (use a in blast)+
next
  assume a: "checkFoundryInstalled E w = (True, u1) \<and> resolveRpcUrl E rpcUrl u1 = (url, u2)
        \<and> executeCommand E (trace_command E txHash url knownAddresses) u2 = (traceResult, u3)
        \<and> success traceResult \<and> extract_selectors (message traceResult) \<noteq> []
        \<and> (\<forall>cmd w. fst (executeCommand E cmd w) = run cmd)
        \<and> filePath \<noteq> [] \<and> (\<forall>w. fst (fs_access E filePath w) = True)
        \<and> (\<forall>w. fst (fs_readFile E filePath w) = Inr fileContent)"
  then have sf: "\<forall>path. Some filePath = Some path \<longrightarrow>
        path \<noteq> [] \<and> (\<forall>w. fst (fs_access E path w) = True)
        \<and> (\<forall>w. fst (fs_readFile E path w) = Inr fileContent)"
    by simp
  have e: "(\<lambda>selector. (selector, steady_matches E run (Some filePath) fileContent selector))
      = (\<lambda>selector. (selector,
           \<lparr>online = steady_online E run selector,
            local_sigs =
              filter (\<lambda>signature. success (run (sig_command E signature))
                        \<and> trim (message (run (sig_command E signature))) = selector)
                (map trim (filter spec_candidate (split_lines fileContent)))\<rparr>))"
    by (simp add: steady_matches_def steady_local_def fun_eq_iff)
  from a have h: "checkFoundryInstalled E w = (True, u1)" "resolveRpcUrl E rpcUrl u1 = (url, u2)"
    "executeCommand E (trace_command E txHash url knownAddresses) u2 = (traceResult, u3)"
    "success traceResult" "extract_selectors (message traceResult) \<noteq> []"
    "\<forall>cmd w. fst (executeCommand E cmd w) = run cmd"
    by blast+
  from analyze_steady [OF h sf]
  show "\<exists>w'. analyze_transaction_trace E txHash rpcUrl (Some filePath) knownAddresses w =
         (Returned
            \<lparr>text_of =
               build_report txHash (extract_selectors (message traceResult))
                 (map (\<lambda>selector. (selector,
                     \<lparr>online = steady_online E run selector,
                      local_sigs =
                        filter (\<lambda>signature. success (run (sig_command E signature))
                                  \<and> trim (message (run (sig_command E signature))) = selector)
                          (map trim (filter spec_candidate (split_lines fileContent)))\<rparr>))
                    (extract_selectors (message traceResult)))
               @ ''Simplified trace with function names:'' @ [LF, LF]
               @ simplify_trace
                   (map (\<lambda>selector. (selector,
                       \<lparr>online = steady_online E run selector,
                        local_sigs =
                          filter (\<lambda>signature. success (run (sig_command E signature))
                                    \<and> trim (message (run (sig_command E signature))) = selector)
                            (map trim (filter spec_candidate (split_lines fileContent)))\<rparr>))
                      (extract_selectors (message traceResult)))
                   (message traceResult),
              isError = False\<rparr>, w')"
    unfolding e .
qed

theorem candidate_lines_of_signature_file_witness:
  "map trim (filter spec_candidate (split_lines sample_file))
     = [''transfer(address,uint256)'', ''Transfer(address,address,uint256)'']
   \<and> trace_file_signatures sample_file
       = [''transfer(address,uint256)'', ''Transfer(address,address,uint256)'']
   \<and> snd (match_signatures sample_env False ''0xa9059cbb'' (file_signatures sample_file) [] [])
       = map (sig_command sample_env)
           [''transfer(address,uint256)'', ''Transfer(address,address,uint256)'']
   \<and> lookup_local sample_env ''0xa9059cbb'' (Some ''sigs.txt'') []
       = (Returned [''transfer(address,uint256)''],
          map (sig_command sample_env)
            [''transfer(address,uint256)'', ''Transfer(address,address,uint256)''])
   \<and> checkFoundryInstalled sample_env [] = (True, [''forge --version''])
   \<and> valid_selector ''0xa9059cbb''
   \<and> file_signatures sample_file \<noteq> []
   \<and> cast_4byte_from_file sample_env ''0xa9059cbb'' ''sigs.txt'' False []
       = (\<lparr>text_of = ''Results for selector 0xa9059cbb:'' @ [LF, LF]
             @ ''Matching signatures from local file:'' @ [LF]
             @ ''transfer(address,uint256)'' @ [LF, LF]
             @ ''Possible signatures from 4byte directory:'' @ [LF]
             @ ''transfer(address,uint256)'' @ [LF] @ ''many_msg_babbage(bytes1)'',
            isError = False\<rparr>,
          [''forge --version'', ''cast 4byte 0xa9059cbb'',
           sig_command sample_env ''transfer(address,uint256)'',
           sig_command sample_env ''Transfer(address,address,uint256)''])
   \<and> (\<forall>cmd w. fst (executeCommand sample_env cmd w) = fst (executeCommand sample_env cmd []))
   \<and> (\<forall>w. fst (fs_access sample_env ''sigs.txt'' w) = True)
   \<and> (\<forall>w. fst (fs_readFile sample_env ''sigs.txt'' w) = Inr sample_file)
   \<and> analyze_transaction_trace sample_env ''0x01'' sample_rpc (Some ''sigs.txt'') [] []
       = (Returned
            \<lparr>text_of = ''Analysis of transaction 0x01:'' @ [LF, LF]
               @ ''Found 1 unique function selectors in the trace.'' @ [LF, LF]
               @ ''Selector: 0xa9059cbb'' @ [LF]
               @ ''  Local matches (1):'' @ [LF]
               @ ''    - transfer(address,uint256)'' @ [LF]
               @ ''  Online matches (2):'' @ [LF]
               @ ''    - transfer(address,uint256)'' @ [LF]
               @ ''    - many_msg_babbage(bytes1)'' @ [LF] @ [LF]
               @ ''Simplified trace with function names:'' @ [LF, LF]
               @ ''CALL 0xa9059cbb [transfer(address,uint256)] to ''
               @ ''0x1111111111111111111111111111111111111111, then ''
               @ ''0xa9059cbb [transfer(address,uint256)]'',
              isError = False\<rparr>,
          [''forge --version'', trace_command sample_env ''0x01'' sample_rpc [],
           ''cast 4byte 0xa9059cbb'',
           sig_command sample_env ''transfer(address,uint256)'',
           sig_command sample_env ''Transfer(address,address,uint256)''])"
proof -
  have c: "map trim (filter spec_candidate (split_lines sample_file))
      = [''transfer(address,uint256)'', ''Transfer(address,address,uint256)'']"
    by code_simp
  have t: "trace_file_signatures sample_file
       = [''transfer(address,uint256)'', ''Transfer(address,address,uint256)'']"
    by code_simp
  have run: "snd (match_signatures sample_env False ''0xa9059cbb'' (file_signatures sample_file) [] [])
      = map (sig_command sample_env)
          [''transfer(address,uint256)'', ''Transfer(address,address,uint256)'']"
    by code_simp
  have loc: "lookup_local sample_env ''0xa9059cbb'' (Some ''sigs.txt'') []
       = (Returned [''transfer(address,uint256)''],
          map (sig_command sample_env)
            [''transfer(address,uint256)'', ''Transfer(address,address,uint256)''])"
    by code_simp
  have i: "checkFoundryInstalled sample_env [] = (True, [''forge --version''])"
    by code_simp
  have v: "valid_selector ''0xa9059cbb''"
    by code_simp
  have ne: "file_signatures sample_file \<noteq> []"
    by code_simp
  have h: "cast_4byte_from_file sample_env ''0xa9059cbb'' ''sigs.txt'' False []
       = (\<lparr>text_of = ''Results for selector 0xa9059cbb:'' @ [LF, LF]
             @ ''Matching signatures from local file:'' @ [LF]
             @ ''transfer(address,uint256)'' @ [LF, LF]
             @ ''Possible signatures from 4byte directory:'' @ [LF]
             @ ''transfer(address,uint256)'' @ [LF] @ ''many_msg_babbage(bytes1)'',
            isError = False\<rparr>,
          [''forge --version'', ''cast 4byte 0xa9059cbb'',
           sig_command sample_env ''transfer(address,uint256)'',
           sig_command sample_env ''Transfer(address,address,uint256)''])"
    by code_simp
  have st: "\<forall>cmd w. fst (executeCommand sample_env cmd w) = fst (executeCommand sample_env cmd [])"
    by (simp add: executeCommand_def sample_env_def sample_exec_def)
  have ac: "\<forall>w. fst (fs_access sample_env ''sigs.txt'' w) = True"
    by (simp add: sample_env_def)
  have rd: "\<forall>w. fst (fs_readFile sample_env ''sigs.txt'' w) = Inr sample_file"
    by (simp add: sample_env_def)
  have a: "analyze_transaction_trace sample_env ''0x01'' sample_rpc (Some ''sigs.txt'') [] []
       = (Returned
            \<lparr>text_of = ''Analysis of transaction 0x01:'' @ [LF, LF]
               @ ''Found 1 unique function selectors in the trace.'' @ [LF, LF]
               @ ''Selector: 0xa9059cbb'' @ [LF]
               @ ''  Local matches (1):'' @ [LF]
               @ ''    - transfer(address,uint256)'' @ [LF]
               @ ''  Online matches (2):'' @ [LF]
               @ ''    - transfer(address,uint256)'' @ [LF]
               @ ''    - many_msg_babbage(bytes1)'' @ [LF] @ [LF]
               @ ''Simplified trace with function names:'' @ [LF, LF]
               @ ''CALL 0xa9059cbb [transfer(address,uint256)] to ''
               @ ''0x1111111111111111111111111111111111111111, then ''
               @ ''0xa9059cbb [transfer(address,uint256)]'',
              isError = False\<rparr>,
          [''forge --version'', trace_command sample_env ''0x01'' sample_rpc [],
           ''cast 4byte 0xa9059cbb'',
           sig_command sample_env ''transfer(address,uint256)'',
           sig_command sample_env ''Transfer(address,address,uint256)''])"
    by code_simp
  from candidate_lines_of_signature_file
         [of sample_file sample_env False "''0xa9059cbb''" "[]" "[]" "''sigs.txt''"]
       c t run loc i v ne h st ac rd a
  show ?thesis by blast
qed

text \<open>
  Claim C3. For a candidate line whose \<open>sig\<close> command answered \<open>r\<close>: when the command
  succeeded and its trimmed output equals the target selector, the line itself is appended
  to the matching list; otherwise, when fuzzy matching is enabled, the command succeeded and
  the first six characters of its trimmed output equal the first six of the target, the
  line is appended with the note \<open>(partial match: <computed selector>)\<close>; otherwise nothing
  is appended. "No exact match" is the line's own: the fuzzy test is the \<open>else\<close> branch of
  the exact test of the same line. Under a steady toolchain the matching list is therefore
  the file's lines in order, each replaced by what this policy gives for it, and
  \<open>cast_4byte_from_file\<close> on a readable file returns that list under the heading
  \<open>Matching signatures from local file:\<close>, before the directory's candidates.
\<close>

theorem local_match_policy:
  "(includes_char signature (CHR ''('') \<and> executeCommand E (sig_command E signature) w = (r, w') \<longrightarrow>
      match_signatures E fuzzyMatch selector (signature # rest) acc w =
      match_signatures E fuzzyMatch selector rest
        (acc @ (if success r \<and> trim (message r) = selector then [signature]
                else if fuzzyMatch \<and> success r \<and> take 6 (trim (message r)) = take 6 selector
                then [signature @ '' (partial match: '' @ trim (message r) @ '')'']
                else [])) w')
   \<and> ((\<forall>s w. fst (executeCommand E (sig_command E s) w) = answer s) \<longrightarrow>
      fst (match_signatures E fuzzyMatch selector signatures acc w) =
        acc @ concat (map (\<lambda>signature.
            if \<not> includes_char signature (CHR ''('') then []
            else if success (answer signature) \<and> trim (message (answer signature)) = selector
            then [signature]
            else if fuzzyMatch \<and> success (answer signature)
                    \<and> take 6 (trim (message (answer signature))) = take 6 selector
            then [signature @ '' (partial match: '' @ trim (message (answer signature)) @ '')'']
            else []) signatures))
   \<and> (checkFoundryInstalled E w = (True, w1) \<and> valid_selector selector
        \<and> (\<forall>cmd w. fst (executeCommand E cmd w) = run cmd)
        \<and> (\<forall>w. fst (fs_access E filePath w) = True)
        \<and> (\<forall>w. fst (fs_readFile E filePath w) = Inr fileContent)
        \<and> file_signatures fileContent \<noteq> [] \<longrightarrow>
      fst (cast_4byte_from_file E selector filePath fuzzyMatch w) =
        (let matchingSignatures = (concat (map (\<lambda>signature.
              if \<not> includes_char signature (CHR ''('') then []
              else if success (run (sig_command E signature))
                      \<and> trim (message (run (sig_command E signature))) = selector
              then [signature]
              else if fuzzyMatch \<and> success (run (sig_command E signature))
                      \<and> take 6 (trim (message (run (sig_command E signature)))) = take 6 selector
              then [signature @ '' (partial match: ''
                      @ trim (message (run (sig_command E signature))) @ '')'']
              else []) (file_signatures fileContent)))
         in \<lparr>text_of =
               ''Results for selector '' @ selector @ '':'' @ [LF, LF]
               @ (if matchingSignatures = []
                  then ''No matching signatures found in local file.'' @ [LF, LF]
                  else ''Matching signatures from local file:'' @ [LF]
                       @ join [LF] matchingSignatures @ [LF, LF])
               @ (if steady_online E run selector = []
                  then ''No signatures found in 4byte directory.''
                  else ''Possible signatures from 4byte directory:'' @ [LF]
                       @ join [LF] (steady_online E run selector)),
              isError = False\<rparr>))"
proof (intro conjI impI)
  assume "includes_char signature (CHR ''('') \<and> executeCommand E (sig_command E signature) w = (r, w')"
  then show "match_signatures E fuzzyMatch selector (signature # rest) acc w =
      match_signatures E fuzzyMatch selector rest
        (acc @ (if success r \<and> trim (message r) = selector then [signature]
                else if fuzzyMatch \<and> success r \<and> take 6 (trim (message r)) = take 6 selector
                then [signature @ '' (partial match: '' @ trim (message r) @ '')'']
                else [])) w'"
    using match_signatures_step [of signature E w r w' fuzzyMatch selector rest acc] by blast
next
  assume "\<forall>s w. fst (executeCommand E (sig_command E s) w) = answer s"
  then show "fst (match_signatures E fuzzyMatch selector signatures acc w) =
        acc @ concat (map (\<lambda>signature.
            if \<not> includes_char signature (CHR ''('') then []
            else if success (answer signature) \<and> trim (message (answer signature)) = selector
            then [signature]
            else if fuzzyMatch \<and> success (answer signature)
                    \<and> take 6 (trim (message (answer signature))) = take 6 selector
            then [signature @ '' (partial match: '' @ trim (message (answer signature)) @ '')'']
            else []) signatures)"
    by (rule match_signatures_stable)
next
  assume a: "checkFoundryInstalled E w = (True, w1) \<and> valid_selector selector
        \<and> (\<forall>cmd w. fst (executeCommand E cmd w) = run cmd)
        \<and> (\<forall>w. fst (fs_access E filePath w) = True)
        \<and> (\<forall>w. fst (fs_readFile E filePath w) = Inr fileContent)
        \<and> file_signatures fileContent \<noteq> []"
  then have h: "checkFoundryInstalled E w = (True, w1)" "valid_selector selector"
    "\<forall>cmd w. fst (executeCommand E cmd w) = run cmd"
    "\<forall>w. fst (fs_access E filePath w) = True"
    "\<forall>w. fst (fs_readFile E filePath w) = Inr fileContent"
    "file_signatures fileContent \<noteq> []"
    by blast+
  show "fst (cast_4byte_from_file E selector filePath fuzzyMatch w) =
        (let matchingSignatures = (concat (map (\<lambda>signature.
              if \<not> includes_char signature (CHR ''('') then []
              else if success (run (sig_command E signature))
                      \<and> trim (message (run (sig_command E signature))) = selector
              then [signature]
              else if fuzzyMatch \<and> success (run (sig_command E signature))
                      \<and> take 6 (trim (message (run (sig_command E signature)))) = take 6 selector
              then [signature @ '' (partial match: ''
                      @ trim (message (run (sig_command E signature))) @ '')'']
              else []) (file_signatures fileContent)))
         in \<lparr>text_of =
               ''Results for selector '' @ selector @ '':'' @ [LF, LF]
               @ (if matchingSignatures = []
                  then ''No matching signatures found in local file.'' @ [LF, LF]
                  else ''Matching signatures from local file:'' @ [LF]
                       @ join [LF] matchingSignatures @ [LF, LF])
               @ (if steady_online E run selector = []
                  then ''No signatures found in 4byte directory.''
                  else ''Possible signatures from 4byte directory:'' @ [LF]
                       @ join [LF] (steady_online E run selector)),
              isError = False\<rparr>)"
    by (simp only: cast_4byte_from_file_steady [OF h] compile_results_text Let_def)
qed

theorem local_match_policy_witness:
  "includes_char ''transfer(address,uint256)'' (CHR ''('')
   \<and> executeCommand sample_env (sig_command sample_env ''transfer(address,uint256)'') []
       = (\<lparr>success = True, message = ''0xa9059cbb'' @ [LF]\<rparr>,
          [sig_command sample_env ''transfer(address,uint256)''])
   \<and> (\<forall>s w. fst (executeCommand sample_env (sig_command sample_env s) w)
              = fst (executeCommand sample_env (sig_command sample_env s) []))
   \<and> match_signatures sample_env True ''0xa9051234'' [''transfer(address,uint256)''] [] []
       = ([''transfer(address,uint256) (partial match: 0xa9059cbb)''],
          [sig_command sample_env ''transfer(address,uint256)''])
   \<and> match_signatures sample_env False ''0xa9051234'' [''transfer(address,uint256)''] [] []
       = ([], [sig_command sample_env ''transfer(address,uint256)''])
   \<and> match_signatures sample_env True ''0xa9059cbb'' [''transfer(address,uint256)''] [] []
       = ([''transfer(address,uint256)''], [sig_command sample_env ''transfer(address,uint256)''])
   \<and> fst (match_signatures sample_env True ''0xa9051234'' (file_signatures sample_file) [] [])
       = [''transfer(address,uint256) (partial match: 0xa9059cbb)'']
   \<and> checkFoundryInstalled sample_env [] = (True, [''forge --version''])
   \<and> valid_selector ''0xa9051234''
   \<and> (\<forall>cmd w. fst (executeCommand sample_env cmd w) = fst (executeCommand sample_env cmd []))
   \<and> (\<forall>w. fst (fs_access sample_env ''sigs.txt'' w) = True)
   \<and> (\<forall>w. fst (fs_readFile sample_env ''sigs.txt'' w) = Inr sample_file)
   \<and> file_signatures sample_file \<noteq> []
   \<and> fst (cast_4byte_from_file sample_env ''0xa9051234'' ''sigs.txt'' True [])
       = \<lparr>text_of = ''Results for selector 0xa9051234:'' @ [LF, LF]
            @ ''Matching signatures from local file:'' @ [LF]
            @ ''transfer(address,uint256) (partial match: 0xa9059cbb)'' @ [LF, LF]
            @ ''No signatures found in 4byte directory.'',
           isError = False\<rparr>
   \<and> fst (cast_4byte_from_file sample_env ''0xa9051234'' ''sigs.txt'' False [])
       = \<lparr>text_of = ''Results for selector 0xa9051234:'' @ [LF, LF]
            @ ''No matching signatures found in local file.'' @ [LF, LF]
            @ ''No signatures found in 4byte directory.'',
           isError = False\<rparr>"
proof -
  have c: "includes_char ''transfer(address,uint256)'' (CHR ''('')"
    by code_simp
  have r: "executeCommand sample_env (sig_command sample_env ''transfer(address,uint256)'') []
       = (\<lparr>success = True, message = ''0xa9059cbb'' @ [LF]\<rparr>,
          [sig_command sample_env ''transfer(address,uint256)''])"
    by code_simp
  have st: "\<forall>cmd w. fst (executeCommand sample_env cmd w) = fst (executeCommand sample_env cmd [])"
    by (simp add: executeCommand_def sample_env_def sample_exec_def)
  then have st': "\<forall>s w. fst (executeCommand sample_env (sig_command sample_env s) w)
              = fst (executeCommand sample_env (sig_command sample_env s) [])"
    by blast
  have p1: "match_signatures sample_env True ''0xa9051234'' [''transfer(address,uint256)''] [] []
       = ([''transfer(address,uint256) (partial match: 0xa9059cbb)''],
          [sig_command sample_env ''transfer(address,uint256)''])"
    by code_simp
  have p2: "match_signatures sample_env False ''0xa9051234'' [''transfer(address,uint256)''] [] []
       = ([], [sig_command sample_env ''transfer(address,uint256)''])"
    by code_simp
  have p3: "match_signatures sample_env True ''0xa9059cbb'' [''transfer(address,uint256)''] [] []
       = ([''transfer(address,uint256)''], [sig_command sample_env ''transfer(address,uint256)''])"
    by code_simp
  have p4: "fst (match_signatures sample_env True ''0xa9051234'' (file_signatures sample_file) [] [])
       = [''transfer(address,uint256) (partial match: 0xa9059cbb)'']"
    by code_simp
  have i: "checkFoundryInstalled sample_env [] = (True, [''forge --version''])"
    by code_simp
  have v: "valid_selector ''0xa9051234''"
    by code_simp
  have ac: "\<forall>w. fst (fs_access sample_env ''sigs.txt'' w) = True"
    by (simp add: sample_env_def)
  have rd: "\<forall>w. fst (fs_readFile sample_env ''sigs.txt'' w) = Inr sample_file"
    by (simp add: sample_env_def)
  have ne: "file_signatures sample_file \<noteq> []"
    by code_simp
  have h1: "fst (cast_4byte_from_file sample_env ''0xa9051234'' ''sigs.txt'' True [])
       = \<lparr>text_of = ''Results for selector 0xa9051234:'' @ [LF, LF]
            @ ''Matching signatures from local file:'' @ [LF]
            @ ''transfer(address,uint256) (partial match: 0xa9059cbb)'' @ [LF, LF]
            @ ''No signatures found in 4byte directory.'',
           isError = False\<rparr>"
    by code_simp
  have h2: "fst (cast_4byte_from_file sample_env ''0xa9051234'' ''sigs.txt'' False [])
       = \<lparr>text_of = ''Results for selector 0xa9051234:'' @ [LF, LF]
            @ ''No matching signatures found in local file.'' @ [LF, LF]
            @ ''No signatures found in 4byte directory.'',
           isError = False\<rparr>"
    by code_simp
  from local_match_policy
         [of "''transfer(address,uint256)''" sample_env "[]"
             "\<lparr>success = True, message = ''0xa9059cbb'' @ [LF]\<rparr>"
             "[sig_command sample_env ''transfer(address,uint256)'']" True "''0xa9051234''" "[]" "[]"]
       c r st st' p1 p2 p3 p4 i v ac rd ne h1 h2
  show ?thesis by blast
qed

text \<open>
  Claim C10. The exact test is \<open>===\<close> on the trimmed output of the \<open>sig\<close> command:
  whenever that string differs from the target selector in any character, the line is not
  recorded as an exact match (the plain line is not in the matching list; under fuzzy
  matching it can only appear with the partial-match note). Letter case counts: the
  validation accepts \<open>0xA9059CBB\<close>, and the toolchain's \<open>0xa9059cbb\<close> does not equal it.
\<close>

theorem exact_match_is_case_sensitive:
  "executeCommand E (sig_command E signature) w = (r, w') \<Longrightarrow>
   trim (message r) \<noteq> selector \<Longrightarrow>
   signature \<notin> set (fst (match_signatures E fuzzyMatch selector [signature] [] w))"
  by (auto split: prod.splits simp: Let_def)

theorem exact_match_is_case_sensitive_witness:
  "valid_selector ''0xA9059CBB'' \<and> valid_selector ''0xa9059cbb''
   \<and> executeCommand sample_env (sig_command sample_env ''transfer(address,uint256)'') []
       = (\<lparr>success = True, message = ''0xa9059cbb'' @ [LF]\<rparr>,
          [sig_command sample_env ''transfer(address,uint256)''])
   \<and> trim (''0xa9059cbb'' @ [LF]) = ''0xa9059cbb''
   \<and> ''transfer(address,uint256)''
        \<notin> set (fst (match_signatures sample_env True ''0xA9059CBB''
                       [''transfer(address,uint256)''] [] []))"
proof -
  have v: "valid_selector ''0xA9059CBB'' \<and> valid_selector ''0xa9059cbb''"
    by code_simp
  have r: "executeCommand sample_env (sig_command sample_env ''transfer(address,uint256)'') []
       = (\<lparr>success = True, message = ''0xa9059cbb'' @ [LF]\<rparr>,
          [sig_command sample_env ''transfer(address,uint256)''])"
    by code_simp
  have t: "trim (''0xa9059cbb'' @ [LF]) = ''0xa9059cbb''"
    by code_simp
  have ne: "trim (message \<lparr>success = True, message = ''0xa9059cbb'' @ [LF]\<rparr>) \<noteq> ''0xA9059CBB''"
    using t by simp
  from exact_match_is_case_sensitive [OF r ne, of True] v r t
  show ?thesis by blast
qed

section \<open>The report\<close>

lemma selector_block_unfold:
  "map_of selectorMap selector = Some e \<Longrightarrow>
   selector_block selectorMap selector =
     ''Selector: '' @ selector @ [LF]
     @ (if local_sigs e = [] then []
        else ''  Local matches ('' @ show_nat (length (local_sigs e)) @ ''):'' @ [LF]
             @ concat (map (\<lambda>sig. ''    - '' @ sig @ [LF]) (local_sigs e)))
     @ (if online e = [] then []
        else ''  Online matches ('' @ show_nat (length (online e)) @ ''):'' @ [LF]
             @ (if length (online e) \<le> 5
                then concat (map (\<lambda>sig. ''    - '' @ sig @ [LF]) (online e))
                else concat (map (\<lambda>sig. ''    - '' @ sig @ [LF]) (take 5 (online e)))
                     @ ''    - ... and '' @ show_nat (length (online e) - 5) @ '' more'' @ [LF]))
     @ (if local_sigs e = [] \<and> online e = [] then ''  No matches found'' @ [LF] else [])
     @ [LF]"
  by (simp add: selector_block_def local_section_def online_section_def Let_def)

text \<open>
  Claim C4. The report of \<open>analyze_transaction_trace\<close>, under a steady toolchain and with
  the signature file, if one is given, readable: after the heading and the count, one block
  per selector in extraction order. A block lists every local candidate; of \<open>n\<close> online
  candidates it lists all without a suffix when \<open>n \<le> 5\<close>, and the first five followed by
  the line \<open>- ... and N more\<close> with \<open>N = n - 5\<close> when \<open>n > 5\<close>.
\<close>

theorem report_lists_five_online_matches:
  assumes inst: "checkFoundryInstalled E w = (True, w1)"
    and res: "resolveRpcUrl E rpcUrl w1 = (url, w2)"
    and tr: "executeCommand E (trace_command E txHash url knownAddresses) w2 = (traceResult, w3)"
    and ok: "success traceResult"
    and ne: "extract_selectors (message traceResult) \<noteq> []"
    and stable: "\<forall>cmd w. fst (executeCommand E cmd w) = run cmd"
    and sigfile: "\<forall>path. signatureFile = Some path \<longrightarrow>
        path \<noteq> [] \<and> (\<forall>w. fst (fs_access E path w) = True)
        \<and> (\<forall>w. fst (fs_readFile E path w) = Inr fileContent)"
  shows "\<exists>w'. analyze_transaction_trace E txHash rpcUrl signatureFile knownAddresses w =
     (Returned
        \<lparr>text_of =
           ''Analysis of transaction '' @ txHash @ '':'' @ [LF, LF]
           @ ''Found '' @ show_nat (length (extract_selectors (message traceResult)))
           @ '' unique function selectors in the trace.'' @ [LF, LF]
           @ concat (map (\<lambda>selector.
                let e = steady_matches E run signatureFile fileContent selector in
                ''Selector: '' @ selector @ [LF]
                @ (if local_sigs e = [] then []
                   else ''  Local matches ('' @ show_nat (length (local_sigs e)) @ ''):'' @ [LF]
                        @ concat (map (\<lambda>sig. ''    - '' @ sig @ [LF]) (local_sigs e)))
                @ (if online e = [] then []
                   else ''  Online matches ('' @ show_nat (length (online e)) @ ''):'' @ [LF]
                        @ (if length (online e) \<le> 5
                           then concat (map (\<lambda>sig. ''    - '' @ sig @ [LF]) (online e))
                           else concat (map (\<lambda>sig. ''    - '' @ sig @ [LF]) (take 5 (online e)))
                                @ ''    - ... and '' @ show_nat (length (online e) - 5)
                                @ '' more'' @ [LF]))
                @ (if local_sigs e = [] \<and> online e = [] then ''  No matches found'' @ [LF] else [])
                @ [LF]) (extract_selectors (message traceResult)))
           @ ''Simplified trace with function names:'' @ [LF, LF]
           @ simplify_trace
               (map (\<lambda>selector. (selector, steady_matches E run signatureFile fileContent selector))
                  (extract_selectors (message traceResult)))
               (message traceResult),
         isError = False\<rparr>, w')"
proof -
  let ?sels = "extract_selectors (message traceResult)"
  let ?M = "map (\<lambda>selector. (selector, steady_matches E run signatureFile fileContent selector)) ?sels"
  have blocks: "map (selector_block ?M) ?sels = map (\<lambda>selector.
                let e = steady_matches E run signatureFile fileContent selector in
                ''Selector: '' @ selector @ [LF]
                @ (if local_sigs e = [] then []
                   else ''  Local matches ('' @ show_nat (length (local_sigs e)) @ ''):'' @ [LF]
                        @ concat (map (\<lambda>sig. ''    - '' @ sig @ [LF]) (local_sigs e)))
                @ (if online e = [] then []
                   else ''  Online matches ('' @ show_nat (length (online e)) @ ''):'' @ [LF]
                        @ (if length (online e) \<le> 5
                           then concat (map (\<lambda>sig. ''    - '' @ sig @ [LF]) (online e))
                           else concat (map (\<lambda>sig. ''    - '' @ sig @ [LF]) (take 5 (online e)))
                                @ ''    - ... and '' @ show_nat (length (online e) - 5)
                                @ '' more'' @ [LF]))
                @ (if local_sigs e = [] \<and> online e = [] then ''  No matches found'' @ [LF] else [])
                @ [LF]) ?sels"
  proof (rule map_cong [OF refl])
    fix selector assume "selector \<in> set ?sels"
    then have "map_of ?M selector = Some (steady_matches E run signatureFile fileContent selector)"
      by (simp add: map_of_tabulate)
    from selector_block_unfold [OF this] show "selector_block ?M selector =
        (let e = steady_matches E run signatureFile fileContent selector in
                ''Selector: '' @ selector @ [LF]
                @ (if local_sigs e = [] then []
                   else ''  Local matches ('' @ show_nat (length (local_sigs e)) @ ''):'' @ [LF]
                        @ concat (map (\<lambda>sig. ''    - '' @ sig @ [LF]) (local_sigs e)))
                @ (if online e = [] then []
                   else ''  Online matches ('' @ show_nat (length (online e)) @ ''):'' @ [LF]
                        @ (if length (online e) \<le> 5
                           then concat (map (\<lambda>sig. ''    - '' @ sig @ [LF]) (online e))
                           else concat (map (\<lambda>sig. ''    - '' @ sig @ [LF]) (take 5 (online e)))
                                @ ''    - ... and '' @ show_nat (length (online e) - 5)
                                @ '' more'' @ [LF]))
                @ (if local_sigs e = [] \<and> online e = [] then ''  No matches found'' @ [LF] else [])
                @ [LF])"
      by (simp only: Let_def)
  qed
  from analyze_steady [OF inst res tr ok ne stable sigfile] obtain w' where
    a: "analyze_transaction_trace E txHash rpcUrl signatureFile knownAddresses w =
     (Returned \<lparr>text_of = build_report txHash ?sels ?M
           @ ''Simplified trace with function names:'' @ [LF, LF]
           @ simplify_trace ?M (message traceResult), isError = False\<rparr>, w')"
    by blast
  show ?thesis
    unfolding a build_report_def blocks by (intro exI [of _ w']) simp
qed

theorem report_lists_five_online_matches_witness:
  "checkFoundryInstalled sample_env [] = (True, [''forge --version''])
   \<and> resolveRpcUrl sample_env sample_rpc [''forge --version''] = (sample_rpc, [''forge --version''])
   \<and> executeCommand sample_env (trace_command sample_env ''0x03'' sample_rpc []) [''forge --version'']
       = (\<lparr>success = True, message = ''CALL 0x70a08231 then 0xa9059cbb''\<rparr>,
          [''forge --version'', trace_command sample_env ''0x03'' sample_rpc []])
   \<and> extract_selectors ''CALL 0x70a08231 then 0xa9059cbb'' = [''0x70a08231'', ''0xa9059cbb'']
   \<and> (\<forall>cmd w. fst (executeCommand sample_env cmd w) = fst (executeCommand sample_env cmd []))
   \<and> (\<forall>w. fst (fs_access sample_env ''sigs.txt'' w) = True)
   \<and> (\<forall>w. fst (fs_readFile sample_env ''sigs.txt'' w) = Inr sample_file)
   \<and> fst (analyze_transaction_trace sample_env ''0x03'' sample_rpc (Some ''sigs.txt'') [] [])
       = Returned
           \<lparr>text_of = ''Analysis of transaction 0x03:'' @ [LF, LF]
              @ ''Found 2 unique function selectors in the trace.'' @ [LF, LF]
              @ ''Selector: 0x70a08231'' @ [LF]
              @ ''  Online matches (7):'' @ [LF]
              @ ''    - balanceOf(address)'' @ [LF]
              @ ''    - b1()'' @ [LF] @ ''    - b2()'' @ [LF] @ ''    - b3()'' @ [LF]
              @ ''    - b4()'' @ [LF]
              @ ''    - ... and 2 more'' @ [LF] @ [LF]
              @ ''Selector: 0xa9059cbb'' @ [LF]
              @ ''  Local matches (1):'' @ [LF]
              @ ''    - transfer(address,uint256)'' @ [LF]
              @ ''  Online matches (2):'' @ [LF]
              @ ''    - transfer(address,uint256)'' @ [LF]
              @ ''    - many_msg_babbage(bytes1)'' @ [LF] @ [LF]
              @ ''Simplified trace with function names:'' @ [LF, LF]
              @ ''CALL 0x70a08231 [balanceOf(address)] then 0xa9059cbb [transfer(address,uint256)]'',
             isError = False\<rparr>
   \<and> selector_block
        [(''0xa9059cbb'', \<lparr>online = [''a()'', ''b()'', ''c()'', ''d()''], local_sigs = []\<rparr>)]
        ''0xa9059cbb''
     = ''Selector: 0xa9059cbb'' @ [LF] @ ''  Online matches (4):'' @ [LF] @ ''    - a()'' @ [LF]
       @ ''    - b()'' @ [LF] @ ''    - c()'' @ [LF] @ ''    - d()'' @ [LF] @ [LF]"
proof -
  have i: "checkFoundryInstalled sample_env [] = (True, [''forge --version''])"
    by code_simp
  have u: "resolveRpcUrl sample_env sample_rpc [''forge --version''] = (sample_rpc, [''forge --version''])"
    by code_simp
  have x: "executeCommand sample_env (trace_command sample_env ''0x03'' sample_rpc []) [''forge --version'']
       = (\<lparr>success = True, message = ''CALL 0x70a08231 then 0xa9059cbb''\<rparr>,
          [''forge --version'', trace_command sample_env ''0x03'' sample_rpc []])"
    by code_simp
  have e: "extract_selectors ''CALL 0x70a08231 then 0xa9059cbb'' = [''0x70a08231'', ''0xa9059cbb'']"
    by code_simp
  have ok: "success \<lparr>success = True, message = ''CALL 0x70a08231 then 0xa9059cbb''\<rparr>"
    by simp
  have ne: "extract_selectors (message \<lparr>success = True, message = ''CALL 0x70a08231 then 0xa9059cbb''\<rparr>) \<noteq> []"
    using e by simp
  have st: "\<forall>cmd w. fst (executeCommand sample_env cmd w) = fst (executeCommand sample_env cmd [])"
    by (simp add: executeCommand_def sample_env_def sample_exec_def)
  have ac: "\<forall>w. fst (fs_access sample_env ''sigs.txt'' w) = True"
    by (simp add: sample_env_def)
  have rd: "\<forall>w. fst (fs_readFile sample_env ''sigs.txt'' w) = Inr sample_file"
    by (simp add: sample_env_def)
  have sf: "\<forall>path. Some ''sigs.txt'' = Some path \<longrightarrow>
        path \<noteq> [] \<and> (\<forall>w. fst (fs_access sample_env path w) = True)
        \<and> (\<forall>w. fst (fs_readFile sample_env path w) = Inr sample_file)"
    using ac rd by auto
  have a: "fst (analyze_transaction_trace sample_env ''0x03'' sample_rpc (Some ''sigs.txt'') [] [])
       = Returned
           \<lparr>text_of = ''Analysis of transaction 0x03:'' @ [LF, LF]
              @ ''Found 2 unique function selectors in the trace.'' @ [LF, LF]
              @ ''Selector: 0x70a08231'' @ [LF]
              @ ''  Online matches (7):'' @ [LF]
              @ ''    - balanceOf(address)'' @ [LF]
              @ ''    - b1()'' @ [LF] @ ''    - b2()'' @ [LF] @ ''    - b3()'' @ [LF]
              @ ''    - b4()'' @ [LF]
              @ ''    - ... and 2 more'' @ [LF] @ [LF]
              @ ''Selector: 0xa9059cbb'' @ [LF]
              @ ''  Local matches (1):'' @ [LF]
              @ ''    - transfer(address,uint256)'' @ [LF]
              @ ''  Online matches (2):'' @ [LF]
              @ ''    - transfer(address,uint256)'' @ [LF]
              @ ''    - many_msg_babbage(bytes1)'' @ [LF] @ [LF]
              @ ''Simplified trace with function names:'' @ [LF, LF]
              @ ''CALL 0x70a08231 [balanceOf(address)] then 0xa9059cbb [transfer(address,uint256)]'',
             isError = False\<rparr>"
    by code_simp
  have b4: "selector_block
        [(''0xa9059cbb'', \<lparr>online = [''a()'', ''b()'', ''c()'', ''d()''], local_sigs = []\<rparr>)]
        ''0xa9059cbb''
     = ''Selector: 0xa9059cbb'' @ [LF] @ ''  Online matches (4):'' @ [LF] @ ''    - a()'' @ [LF]
       @ ''    - b()'' @ [LF] @ ''    - c()'' @ [LF] @ ''    - d()'' @ [LF] @ [LF]"
    by code_simp
  from report_lists_five_online_matches [OF i u x ok ne st sf] i u x e st ac rd a b4
  show ?thesis by blast
qed

section \<open>Inline annotation\<close>

lemma chosen_props:
  fixes signatures :: "string list"
  defines "chosen \<equiv> take 3 (sort_key length signatures)"
    and "others \<equiv> drop 3 (sort_key length signatures)"
  shows "length chosen = min 3 (length signatures)"
    and "sorted (map length chosen)"
    and "mset signatures = mset chosen + mset others"
    and "\<forall>a \<in> set chosen. \<forall>b \<in> set others. length a \<le> length b"
proof -
  let ?s = "sort_key length signatures"
  show "length chosen = min 3 (length signatures)"
    by (simp add: chosen_def min.commute)
  have srt: "sorted (map length ?s)" by simp
  have "sorted (take 3 (map length ?s))" using srt by (rule sorted_wrt_take)
  then show "sorted (map length chosen)" by (simp add: chosen_def take_map)
  have "mset ?s = mset (chosen @ others)" by (simp add: chosen_def others_def)
  then show "mset signatures = mset chosen + mset others" by simp
  have "sorted (map length (chosen @ others))" using srt by (simp add: chosen_def others_def)
  then show "\<forall>a \<in> set chosen. \<forall>b \<in> set others. length a \<le> length b"
    by (auto simp: sorted_append)
qed

lemma split_lines_not_Nil: "split_lines s \<noteq> []"
  by (induction s) (auto split: list.splits)

lemma parse_signatures_not_Nil: "parse_signatures msg \<noteq> []"
  by (simp add: parse_signatures_def split_lines_not_Nil)

lemma lookup_selectors_steady:
  fixes selectors :: "string list" and selectorMap :: "(string \<times> string list) list"
  assumes stable: "\<forall>cmd w. fst (executeCommand E cmd w) = run cmd"
  shows "distinct selectors \<Longrightarrow> set selectors \<inter> fst ` set selectorMap = {} \<Longrightarrow>
     \<exists>w'. lookup_selectors E rpcUrl selectors selectorMap w =
       (selectorMap @ map (\<lambda>selector. (selector, parse_signatures (message
            (run (castPath E @ '' 4byte '' @ selector @ '' --rpc-url '' @ [DQ] @ rpcUrl @ [DQ])))))
          (filter (\<lambda>selector.
              success (run (castPath E @ '' 4byte '' @ selector @ '' --rpc-url '' @ [DQ] @ rpcUrl @ [DQ]))
              \<and> trim (message (run (castPath E @ '' 4byte '' @ selector @ '' --rpc-url ''
                                       @ [DQ] @ rpcUrl @ [DQ]))) \<noteq> []) selectors), w')"
proof (induction selectors arbitrary: selectorMap w)
  case Nil
  show ?case by simp
next
  case (Cons s rest)
  let ?cmd = "\<lambda>selector. castPath E @ '' 4byte '' @ selector @ '' --rpc-url '' @ [DQ] @ rpcUrl @ [DQ]"
  obtain r w1 where ex: "executeCommand E (?cmd s) w = (r, w1)"
    by (cases "executeCommand E (?cmd s) w")
  have r: "r = run (?cmd s)" using stable ex by (metis fst_conv)
  have fresh: "s \<notin> fst ` set selectorMap" using Cons.prems(2) by auto
  have d: "distinct rest" using Cons.prems(1) by simp
  show ?case
  proof (cases "success r \<and> trim (message r) \<noteq> []")
    case True
    have upd: "AList.update s (parse_signatures (message r)) selectorMap
        = selectorMap @ [(s, parse_signatures (message r))]"
      using fresh by (rule update_fresh)
    have disj: "set rest \<inter> fst ` set (selectorMap @ [(s, parse_signatures (message r))]) = {}"
      using Cons.prems by auto
    from Cons.IH [OF d disj, of w1] obtain w' where
      ih: "lookup_selectors E rpcUrl rest (selectorMap @ [(s, parse_signatures (message r))]) w1 =
        ((selectorMap @ [(s, parse_signatures (message r))])
           @ map (\<lambda>selector. (selector, parse_signatures (message (run (?cmd selector)))))
               (filter (\<lambda>selector. success (run (?cmd selector))
                                   \<and> trim (message (run (?cmd selector))) \<noteq> []) rest), w')"
      by blast
    have "lookup_selectors E rpcUrl (s # rest) selectorMap w =
        lookup_selectors E rpcUrl rest (selectorMap @ [(s, parse_signatures (message r))]) w1"
      using ex True upd by simp
    then show ?thesis
      unfolding ih using True r by simp
  next
    case False
    have disj: "set rest \<inter> fst ` set selectorMap = {}" using Cons.prems by auto
    from Cons.IH [OF d disj, of w1] obtain w' where
      ih: "lookup_selectors E rpcUrl rest selectorMap w1 =
        (selectorMap
           @ map (\<lambda>selector. (selector, parse_signatures (message (run (?cmd selector)))))
               (filter (\<lambda>selector. success (run (?cmd selector))
                                   \<and> trim (message (run (?cmd selector))) \<noteq> []) rest), w')"
      by blast
    have "lookup_selectors E rpcUrl (s # rest) selectorMap w =
        lookup_selectors E rpcUrl rest selectorMap w1"
      using ex False by auto
    then show ?thesis
      unfolding ih using False r by auto
  qed
qed

lemma display_is_spec_choice:
  "signaturesDisplay signatures
     = join '' or '' (spec_inline_choice \<lparr>online = signatures, local_sigs = []\<rparr>)"
  by (simp add: signaturesDisplay_def spec_inline_choice_def)

lemma annotate_selectors_foldl:
  "annotate_selectors (map (\<lambda>selector. (selector, cands selector)) selectors) out =
   foldl (\<lambda>out selector.
            annotate out selector
              (''Likely: '' @ join '' or ''
                 (spec_inline_choice \<lparr>online = cands selector, local_sigs = []\<rparr>)))
     out (filter (\<lambda>selector. cands selector \<noteq> []) selectors)"
  by (induction selectors arbitrary: out) (simp_all add: display_is_spec_choice)

text \<open>
  Claim C5. \<open>processFunctionSelectors\<close> consults the directory only, so the ranker works
  on an entry without local candidates and its preference for local results has nothing to
  act on: under a steady toolchain the trace is annotated, selector by selector in
  extraction order, for each selector the directory resolves, with \<open>Likely:\<close> and the
  choice the specification's ranker makes from the remote candidates alone, joined by
  \<open> or \<close>. That choice is the first three of the candidates in a stable sort by length:
  it is sorted by length, candidates of equal length keep the directory's order, and no
  candidate left out is shorter than a chosen one.
\<close>

theorem inline_annotation_choice:
  "((\<forall>cmd w. fst (executeCommand E cmd w) = run cmd) \<longrightarrow>
      fst (processFunctionSelectors E traceOutput rpcUrl w) =
        foldl (\<lambda>out selector.
                 annotate out selector
                   (''Likely: '' @ join '' or ''
                      (spec_inline_choice
                         \<lparr>online = parse_signatures (message
                              (run (castPath E @ '' 4byte '' @ selector @ '' --rpc-url ''
                                      @ [DQ] @ rpcUrl @ [DQ]))),
                          local_sigs = []\<rparr>)))
          traceOutput
          (filter (\<lambda>selector.
              success (run (castPath E @ '' 4byte '' @ selector @ '' --rpc-url '' @ [DQ] @ rpcUrl @ [DQ]))
              \<and> trim (message (run (castPath E @ '' 4byte '' @ selector @ '' --rpc-url ''
                                       @ [DQ] @ rpcUrl @ [DQ]))) \<noteq> [])
             (extract_selectors traceOutput)))
   \<and> signaturesDisplay signatures
       = join '' or '' (spec_inline_choice \<lparr>online = signatures, local_sigs = []\<rparr>)
   \<and> (\<exists>ordered.
         spec_inline_choice \<lparr>online = signatures, local_sigs = []\<rparr> = take 3 ordered
         \<and> mset ordered = mset signatures
         \<and> sorted (map length ordered)
         \<and> (\<forall>k. filter (\<lambda>s. length s = k) ordered = filter (\<lambda>s. length s = k) signatures))
   \<and> length (spec_inline_choice \<lparr>online = signatures, local_sigs = []\<rparr>) = min 3 (length signatures)"
proof (intro conjI impI)
  assume stable: "\<forall>cmd w. fst (executeCommand E cmd w) = run cmd"
  let ?cmd = "\<lambda>selector. castPath E @ '' 4byte '' @ selector @ '' --rpc-url '' @ [DQ] @ rpcUrl @ [DQ]"
  let ?cands = "\<lambda>selector. parse_signatures (message (run (?cmd selector)))"
  let ?resolved = "\<lambda>selector. success (run (?cmd selector)) \<and> trim (message (run (?cmd selector))) \<noteq> []"
  let ?sels = "extract_selectors traceOutput"
  have d: "distinct ?sels" by (simp add: extract_selectors_def distinct_set_add_all)
  from lookup_selectors_steady [OF stable d, of "[]" rpcUrl w] obtain w' where
    l: "lookup_selectors E rpcUrl ?sels [] w
        = (map (\<lambda>selector. (selector, ?cands selector)) (filter ?resolved ?sels), w')"
    by auto
  have all: "filter (\<lambda>selector. ?cands selector \<noteq> []) (filter ?resolved ?sels) = filter ?resolved ?sels"
    by (simp add: parse_signatures_not_Nil)
  have "fst (processFunctionSelectors E traceOutput rpcUrl w)
      = annotate_selectors (map (\<lambda>selector. (selector, ?cands selector)) (filter ?resolved ?sels))
          traceOutput"
  proof (cases "?sels = []")
    case True
    then show ?thesis by (simp add: processFunctionSelectors_def)
  next
    case False
    then show ?thesis using l by (simp add: processFunctionSelectors_def Let_def)
  qed
  then show "fst (processFunctionSelectors E traceOutput rpcUrl w) =
        foldl (\<lambda>out selector.
                 annotate out selector
                   (''Likely: '' @ join '' or ''
                      (spec_inline_choice \<lparr>online = ?cands selector, local_sigs = []\<rparr>)))
          traceOutput (filter ?resolved ?sels)"
    unfolding annotate_selectors_foldl all .
next
  show "signaturesDisplay signatures
       = join '' or '' (spec_inline_choice \<lparr>online = signatures, local_sigs = []\<rparr>)"
    by (rule display_is_spec_choice)
next
  have "spec_inline_choice \<lparr>online = signatures, local_sigs = []\<rparr>
      = take 3 (sort_key length signatures)"
    by (simp add: spec_inline_choice_def)
  moreover have "mset (sort_key length signatures) = mset signatures" by simp
  moreover have "sorted (map length (sort_key length signatures))" by simp
  moreover have "\<forall>k. filter (\<lambda>s. length s = k) (sort_key length signatures)
      = filter (\<lambda>s. length s = k) signatures"
    by (simp add: sort_key_stable)
  ultimately show "\<exists>ordered.
         spec_inline_choice \<lparr>online = signatures, local_sigs = []\<rparr> = take 3 ordered
         \<and> mset ordered = mset signatures
         \<and> sorted (map length ordered)
         \<and> (\<forall>k. filter (\<lambda>s. length s = k) ordered = filter (\<lambda>s. length s = k) signatures)"
    by blast
next
  show "length (spec_inline_choice \<lparr>online = signatures, local_sigs = []\<rparr>) = min 3 (length signatures)"
    using chosen_props(1) [of signatures] by (simp add: spec_inline_choice_def)
qed

theorem inline_annotation_choice_witness:
  "(\<forall>cmd w. fst (executeCommand sample_env cmd w) = fst (executeCommand sample_env cmd []))
   \<and> fst (processFunctionSelectors sample_env ''CALL 0x70a08231 then 0xa9059cbb'' sample_rpc [])
       = ''CALL 0x70a08231 then 0xa9059cbb ''
         @ ''[Likely: many_msg_babbage(bytes1) or transfer(address,uint256)]''
   \<and> signaturesDisplay [''transfer(address,uint256)'', ''many_msg_babbage(bytes1)'', ''bb()'', ''a()'']
       = ''a() or bb() or many_msg_babbage(bytes1)''
   \<and> signaturesDisplay [''dd()'', ''cc()'', ''bb()'', ''aa()''] = ''dd() or cc() or bb()''
   \<and> annotate_selectors
        [(''0xa9059cbb'', [''transfer(address,uint256)'', ''many_msg_babbage(bytes1)'', ''bb()'', ''a()''])]
        ''CALL 0xa9059cbb''
       = ''CALL 0xa9059cbb [Likely: a() or bb() or many_msg_babbage(bytes1)]''"
proof -
  have st: "\<forall>cmd w. fst (executeCommand sample_env cmd w) = fst (executeCommand sample_env cmd [])"
    by (simp add: executeCommand_def sample_env_def sample_exec_def)
  have p: "fst (processFunctionSelectors sample_env ''CALL 0x70a08231 then 0xa9059cbb'' sample_rpc [])
       = ''CALL 0x70a08231 then 0xa9059cbb ''
         @ ''[Likely: many_msg_babbage(bytes1) or transfer(address,uint256)]''"
    by code_simp
  have d: "signaturesDisplay [''transfer(address,uint256)'', ''many_msg_babbage(bytes1)'', ''bb()'', ''a()'']
       = ''a() or bb() or many_msg_babbage(bytes1)''"
    by code_simp
  have d2: "signaturesDisplay [''dd()'', ''cc()'', ''bb()'', ''aa()''] = ''dd() or cc() or bb()''"
    by code_simp
  have a: "annotate_selectors
        [(''0xa9059cbb'', [''transfer(address,uint256)'', ''many_msg_babbage(bytes1)'', ''bb()'', ''a()''])]
        ''CALL 0xa9059cbb''
       = ''CALL 0xa9059cbb [Likely: a() or bb() or many_msg_babbage(bytes1)]''"
    by code_simp
  from inline_annotation_choice
         [of sample_env "\<lambda>cmd. fst (executeCommand sample_env cmd [])"
             "''CALL 0x70a08231 then 0xa9059cbb''" sample_rpc "[]"
             "[''dd()'', ''cc()'', ''bb()'', ''aa()'']"]
       st p d d2 a
  show ?thesis by blast
qed

section \<open>A trace without selectors\<close>

text \<open>
  Claim C7, as amended. When the trace holds no selector, \<open>processFunctionSelectors\<close>
  returns the trace text itself and runs no lookup (it makes no report); and
  \<open>analyze_transaction_trace\<close>, once the toolchain is installed and the trace command has
  succeeded, returns only the message \<open>No function selectors found in the transaction
  trace.\<close>, without error flag and without the trace text, and runs no lookup.
\<close>

theorem no_selectors_early_return:
  "(extract_selectors traceOutput = [] \<longrightarrow>
      processFunctionSelectors E traceOutput rpcUrl w = (traceOutput, w))
   \<and> (checkFoundryInstalled E w = (True, w1) \<and> resolveRpcUrl E rpcUrl w1 = (url, w2)
        \<and> executeCommand E (trace_command E txHash url knownAddresses) w2 = (traceResult, w3)
        \<and> success traceResult \<and> extract_selectors (message traceResult) = [] \<longrightarrow>
      analyze_transaction_trace E txHash rpcUrl signatureFile knownAddresses w =
        (Returned \<lparr>text_of = ''No function selectors found in the transaction trace.'',
                   isError = False\<rparr>, w3))"
  by (simp add: processFunctionSelectors_def analyze_transaction_trace_def Let_def)

theorem no_selectors_early_return_witness:
  "extract_selectors ''CALL 0x1234'' = []
   \<and> processFunctionSelectors sample_env ''CALL 0x1234'' sample_rpc [] = (''CALL 0x1234'', [])
   \<and> checkFoundryInstalled sample_env [] = (True, [''forge --version''])
   \<and> resolveRpcUrl sample_env sample_rpc [''forge --version''] = (sample_rpc, [''forge --version''])
   \<and> executeCommand sample_env (trace_command sample_env ''0x02'' sample_rpc []) [''forge --version'']
       = (\<lparr>success = True, message = ''CALL 0x1234''\<rparr>,
          [''forge --version'', trace_command sample_env ''0x02'' sample_rpc []])
   \<and> analyze_transaction_trace sample_env ''0x02'' sample_rpc (Some ''sigs.txt'') [] []
       = (Returned \<lparr>text_of = ''No function selectors found in the transaction trace.'',
                    isError = False\<rparr>,
          [''forge --version'', trace_command sample_env ''0x02'' sample_rpc []])"
proof -
  have e: "extract_selectors ''CALL 0x1234'' = []"
    by code_simp
  have i: "checkFoundryInstalled sample_env [] = (True, [''forge --version''])"
    by code_simp
  have u: "resolveRpcUrl sample_env sample_rpc [''forge --version''] = (sample_rpc, [''forge --version''])"
    by code_simp
  have x: "executeCommand sample_env (trace_command sample_env ''0x02'' sample_rpc []) [''forge --version'']
       = (\<lparr>success = True, message = ''CALL 0x1234''\<rparr>,
          [''forge --version'', trace_command sample_env ''0x02'' sample_rpc []])"
    by code_simp
  from no_selectors_early_return
         [of "''CALL 0x1234''" sample_env sample_rpc "[]" "[''forge --version'']" sample_rpc
             "[''forge --version'']" "''0x02''" "[]"
             "\<lparr>success = True, message = ''CALL 0x1234''\<rparr>"
             "[''forge --version'', trace_command sample_env ''0x02'' sample_rpc []]"
             "Some ''sigs.txt''"]
  show ?thesis
    using e i u x by simp
qed

text \<open>
  The claim as stated fails in both paths: the trace entry point answers with the message
  alone, in which the trace text does not occur, and \<open>processFunctionSelectors\<close> answers
  with the trace text alone.
\<close>

theorem no_selectors_report_and_text_counterexample:
  "fst (analyze_transaction_trace sample_env ''0x02'' sample_rpc None [] [])
     = Returned \<lparr>text_of = ''No function selectors found in the transaction trace.'', isError = False\<rparr>
   \<and> \<not> occurs_in ''CALL 0x1234'' ''No function selectors found in the transaction trace.''
   \<and> fst (processFunctionSelectors sample_env ''CALL 0x1234'' sample_rpc []) = ''CALL 0x1234''"
  by code_simp

section \<open>A signature file that does not exist\<close>










section \<open>The annotation step\<close>

lemma get_substitution_plain:
  "CHR ''$'' \<notin> set template \<Longrightarrow> get_substitution matched preceding following template = template"
  by (induction matched preceding following template rule: get_substitution.induct) auto

lemma selector_at_Nil: "\<not> selector_at selector []"
  by (auto simp: selector_at_def)

lemma spec_replace_match:
  "selector_at selector s \<Longrightarrow>
   spec_replace selector replacement s
     = replacement @ spec_replace selector replacement (drop (length selector) s)"
  by (cases s) (simp_all add: selector_at_Nil spec_replace.simps(2))

lemma spec_replace_skip:
  "\<not> selector_at selector (c # cs) \<Longrightarrow>
   spec_replace selector replacement (c # cs) = c # spec_replace selector replacement cs"
  by (simp add: spec_replace.simps(2))

lemma replace_from_plain:
  "CHR ''$'' \<notin> set replacement \<Longrightarrow>
   replace_from selector replacement t i = spec_replace selector replacement (drop i t)"
proof (induction selector replacement t i rule: replace_from.induct)
  case (1 selector replacement t i)
  show ?case
  proof (cases "length t \<le> i")
    case True
    then show ?thesis by (simp add: replace_from.simps [of selector replacement t i])
  next
    case False
    then have d: "drop i t = t ! i # drop (Suc i) t"
      by (simp add: Cons_nth_drop_Suc)
    show ?thesis
    proof (cases "selector_at selector (drop i t)")
      case True
      have "replace_from selector replacement t i =
          replacement @ replace_from selector replacement t (i + length selector)"
        using False True "1.prems"
        by (simp add: replace_from.simps [of selector replacement t i] get_substitution_plain)
      also have "\<dots> = replacement @ spec_replace selector replacement (drop (i + length selector) t)"
        using "1.IH"(1) [OF False True "1.prems"] by simp
      also have "\<dots> = replacement @ spec_replace selector replacement (drop (length selector) (drop i t))"
        by (simp add: add.commute)
      also have "\<dots> = spec_replace selector replacement (drop i t)"
        using spec_replace_match [OF True] by simp
      finally show ?thesis .
    next
      case no: False
      have "replace_from selector replacement t i = t ! i # replace_from selector replacement t (i + 1)"
        using False no by (simp add: replace_from.simps [of selector replacement t i])
      also have "\<dots> = t ! i # spec_replace selector replacement (drop (Suc i) t)"
        using "1.IH"(2) [OF False no "1.prems"] by simp
      also have "\<dots> = spec_replace selector replacement (drop i t)"
        using no spec_replace_skip [of selector "t ! i" "drop (Suc i) t" replacement]
        unfolding d by simp
      finally show ?thesis .
    qed
  qed
qed

lemma dollar_not_hex: "\<not> is_hex (CHR ''$'')"
  by (simp add: is_hex_def)

lemma valid_selector_no_dollar: "valid_selector s \<Longrightarrow> CHR ''$'' \<notin> set s"
proof
  assume v: "valid_selector s" and m: "CHR ''$'' \<in> set s"
  have "set s = set (take 2 s) \<union> set (drop 2 s)"
    by (metis append_take_drop_id set_append)
  with m have "CHR ''$'' \<in> set (take 2 s) \<or> CHR ''$'' \<in> set (drop 2 s)"
    by blast
  moreover have "CHR ''$'' \<notin> set (take 2 s)" using v by (simp add: valid_selector_def)
  moreover have "\<forall>c \<in> set (drop 2 s). is_hex c"
    using v by (simp add: valid_selector_def list_all_iff)
  ultimately show False using dollar_not_hex by blast
qed

lemma annotate_without_dollar:
  "valid_selector selector \<Longrightarrow> CHR ''$'' \<notin> set annotation \<Longrightarrow>
   annotate t selector annotation = spec_annotate t selector annotation"
proof -
  assume v: "valid_selector selector" and a: "CHR ''$'' \<notin> set annotation"
  have "CHR ''$'' \<notin> set (selector @ '' ['' @ annotation @ '']'')"
    using valid_selector_no_dollar [OF v] a by simp
  then have "replace_from selector (selector @ '' ['' @ annotation @ '']'') t 0
      = spec_replace selector (selector @ '' ['' @ annotation @ '']'') (drop 0 t)"
    by (rule replace_from_plain)
  then show ?thesis
    by (simp add: annotate_def spec_annotate_def replace_selector_def)
qed

lemma selector_at_valid:
  "valid_selector selector \<Longrightarrow>
   selector_at selector s = (take 10 s = selector \<and> \<not> hex_follows (drop 10 s))"
  by (auto simp: selector_at_def valid_selector_def)

lemma x_not_hex: "\<not> is_hex (CHR ''x'')"
  by (simp add: is_hex_def)

lemma zero_is_hex: "is_hex (CHR ''0'')"
  by (simp add: is_hex_def)

lemma valid_selector_shape:
  assumes "valid_selector selector"
  shows "length selector = 10" and "selector ! 0 = CHR ''0''" and "selector ! 1 = CHR ''x''"
    and "\<And>k. 2 \<le> k \<Longrightarrow> k < 10 \<Longrightarrow> is_hex (selector ! k)"
proof -
  show len: "length selector = 10" using assms by (simp add: valid_selector_def)
  have t: "take 2 selector = ''0x''" using assms by (simp add: valid_selector_def)
  have "selector ! 0 = take 2 selector ! 0" by simp
  then show "selector ! 0 = CHR ''0''" unfolding t by simp
  have "selector ! 1 = take 2 selector ! 1" by simp
  then show "selector ! 1 = CHR ''x''" unfolding t by simp
  fix k :: nat assume k: "2 \<le> k" "k < 10"
  have "\<forall>c \<in> set (drop 2 selector). is_hex c"
    using assms by (simp add: valid_selector_def list_all_iff)
  moreover have "selector ! k = drop 2 selector ! (k - 2)"
  proof -
    have "drop 2 selector ! (k - 2) = selector ! (2 + (k - 2))"
      by (subst nth_drop) (simp_all add: len)
    moreover have "2 + (k - 2) = k" using k by simp
    ultimately show ?thesis by simp
  qed
  moreover have "k - 2 < length (drop 2 selector)" using k len by simp
  ultimately show "is_hex (selector ! k)" by (metis nth_mem)
qed

lemma valid_selector_chars:
  assumes "valid_selector selector" and "c \<in> set selector"
  shows "c = CHR ''0'' \<or> c = CHR ''x'' \<or> is_hex c"
proof -
  from assms(2) obtain k where k: "k < length selector" "selector ! k = c"
    by (auto simp: in_set_conv_nth)
  note sh = valid_selector_shape [OF assms(1)]
  consider "k = 0" | "k = 1" | "2 \<le> k" by linarith
  then show ?thesis
  proof cases
    case 1 with k sh(2) show ?thesis by simp
  next
    case 2 with k sh(3) show ?thesis by simp
  next
    case 3 with k sh(1,4) show ?thesis by auto
  qed
qed

text \<open>The first characters of the text survive a replacement that starts with the selector.\<close>

lemma spec_replace_keeps_prefix:
  "take (length selector) replacement = selector \<Longrightarrow> n \<le> length selector \<Longrightarrow>
   take n (spec_replace selector replacement s) = take n s"
proof (induction selector replacement s arbitrary: n rule: spec_replace.induct)
  case (1 selector replacement)
  show ?case by simp
next
  case (2 selector replacement c cs)
  show ?case
  proof (cases "selector_at selector (c # cs)")
    case True
    then have s: "take (length selector) (c # cs) = selector"
      unfolding selector_at_def by blast
    have "take n (spec_replace selector replacement (c # cs)) = take n replacement"
    proof -
      have "length selector \<le> length replacement"
        using "2.prems"(1) by (metis length_take min.cobounded1)
      then have "n \<le> length replacement" using "2.prems"(2) by simp
      then show ?thesis by (simp add: spec_replace_match [OF True])
    qed
    also have "\<dots> = take n (take (length selector) replacement)"
      using "2.prems"(2) by (simp add: min_absorb1)
    also have "\<dots> = take n (take (length selector) (c # cs))"
      unfolding "2.prems"(1) s ..
    also have "\<dots> = take n (c # cs)"
      using "2.prems"(2) by (simp only: take_take min_absorb1)
    finally show ?thesis .
  next
    case False
    show ?thesis
    proof (cases n)
      case 0
      then show ?thesis by simp
    next
      case (Suc m)
      then have "m \<le> length selector" using "2.prems"(2) by simp
      from "2.IH"(2) [OF False "2.prems"(1) this] Suc
      show ?thesis by (simp add: spec_replace_skip [OF False])
    qed
  qed
qed

lemma spec_replace_copies_prefix:
  "(\<And>k. k < length a \<Longrightarrow> \<not> selector_at selector (drop k (a @ b))) \<Longrightarrow>
   spec_replace selector replacement (a @ b) = a @ spec_replace selector replacement b"
proof (induction a)
  case Nil
  show ?case by simp
next
  case (Cons c a)
  have "\<not> selector_at selector (c # a @ b)" using Cons.prems [of 0] by simp
  moreover have "spec_replace selector replacement (a @ b) = a @ spec_replace selector replacement b"
  proof (rule Cons.IH)
    fix k assume "k < length a"
    then show "\<not> selector_at selector (drop k (a @ b))"
      using Cons.prems [of "Suc k"] by simp
  qed
  ultimately show ?case by (simp add: spec_replace_skip)
qed

lemma selector_at_second_char:
  assumes v: "valid_selector selector" and m: "selector_at selector u"
  shows "1 < length u \<and> u ! 1 = CHR ''x''"
proof -
  from m have t: "take 10 u = selector"
    by (simp add: selector_at_valid [OF v])
  have len: "length (take 10 u) = 10" unfolding t by (rule valid_selector_shape(1) [OF v])
  then have "1 < length u" by simp
  moreover have "u ! 1 = take 10 u ! 1" by simp
  ultimately show ?thesis unfolding t using valid_selector_shape(3) [OF v] by simp
qed

text \<open>An occurrence that a hex digit follows is still followed by a hex digit afterwards.\<close>

lemma hex_still_follows:
  assumes v: "valid_selector selector"
    and r: "take (length selector) replacement = selector"
    and h: "is_hex h"
  shows "hex_follows (drop 9 (spec_replace selector replacement (tl selector @ h # rest)))"
proof -
  note sh = valid_selector_shape [OF v]
  have lt: "length (tl selector) = 9" using sh(1) by simp
  have none: "\<not> selector_at selector (drop k (tl selector @ h # rest))" if k: "k < length (tl selector)" for k
  proof
    assume m: "selector_at selector (drop k (tl selector @ h # rest))"
    from selector_at_second_char [OF v m]
    have "drop k (tl selector @ h # rest) ! 1 = CHR ''x''" by blast
    moreover have "drop k (tl selector @ h # rest) ! 1 = (tl selector @ h # rest) ! (k + 1)"
    proof -
      have "k \<le> length (tl selector @ h # rest)" using k by simp
      then show ?thesis by (simp only: nth_drop)
    qed
    ultimately have x: "(tl selector @ h # rest) ! (k + 1) = CHR ''x''"
      by simp
    show False
    proof (cases "k + 1 < 9")
      case True
      then have "(tl selector @ h # rest) ! (k + 1) = selector ! (k + 2)"
        using lt sh(1) by (simp add: nth_append nth_tl)
      moreover have "is_hex (selector ! (k + 2))" using True by (intro sh(4)) simp_all
      ultimately show False using x x_not_hex by simp
    next
      case False
      with k lt have "k + 1 = 9" by simp
      then have "(tl selector @ h # rest) ! (k + 1) = h"
        using lt by (simp add: nth_append)
      with x h x_not_hex show False by simp
    qed
  qed
  have "spec_replace selector replacement (tl selector @ h # rest)
      = tl selector @ spec_replace selector replacement (h # rest)"
    by (rule spec_replace_copies_prefix) (rule none)
  then have d: "drop 9 (spec_replace selector replacement (tl selector @ h # rest))
      = spec_replace selector replacement (h # rest)"
    using lt by simp
  show ?thesis
  proof (cases "selector_at selector (h # rest)")
    case True
    have "replacement \<noteq> []" using r sh(1) by auto
    moreover have "hd replacement = CHR ''0''"
    proof -
      have "hd replacement = take (length selector) replacement ! 0"
        using \<open>replacement \<noteq> []\<close> sh(1) by (cases replacement) simp_all
      then show ?thesis unfolding r using sh(2) by simp
    qed
    ultimately show ?thesis
      unfolding d spec_replace_match [OF True]
      by (cases replacement) (simp_all add: hex_follows_def zero_is_hex)
  next
    case False
    show ?thesis
      unfolding d spec_replace_skip [OF False] using h by (simp add: hex_follows_def)
  qed
qed

lemma no_new_match:
  assumes v: "valid_selector selector"
    and r: "take (length selector) replacement = selector"
    and n: "\<not> selector_at selector (c # cs)"
  shows "\<not> selector_at selector (c # spec_replace selector replacement cs)"
proof
  let ?f = "spec_replace selector replacement"
  note sh = valid_selector_shape [OF v]
  assume m: "selector_at selector (c # ?f cs)"
  then have t: "take 10 (c # ?f cs) = selector" and nf: "\<not> hex_follows (drop 10 (c # ?f cs))"
    by (simp_all add: selector_at_valid [OF v])
  from t have c: "c # take 9 (?f cs) = selector" by simp
  have k: "take 9 (?f cs) = take 9 cs"
    by (rule spec_replace_keeps_prefix [OF r]) (simp add: sh(1))
  from c k have t': "take 10 (c # cs) = selector" by simp
  with n have "hex_follows (drop 10 (c # cs))"
    by (simp add: selector_at_valid [OF v])
  then obtain h rest where dm: "drop 9 cs = h # rest" and h: "is_hex h"
    by (auto simp: hex_follows_def split: list.splits)
  have tl: "take 9 cs = tl selector" using c k by auto
  have "cs = take 9 cs @ drop 9 cs" by simp
  then have cs: "cs = tl selector @ h # rest" unfolding tl dm .
  from hex_still_follows [OF v r h, of rest] nf show False
    unfolding cs by simp
qed

lemma selector_at_foreign_head:
  "valid_selector selector \<Longrightarrow> c \<notin> set selector \<Longrightarrow> \<not> selector_at selector (c # s)"
proof
  assume v: "valid_selector selector" and c: "c \<notin> set selector"
    and m: "selector_at selector (c # s)"
  from m have "take 10 (c # s) = selector" by (simp add: selector_at_valid [OF v])
  then have "c \<in> set selector" by (metis list.set_intros(1) take_Suc_Cons numeral_eq_Suc)
  with c show False by simp
qed

text \<open>A character foreign to the selector and to the hex digits cuts the scan in two.\<close>

lemma selector_at_before_foreign:
  assumes v: "valid_selector selector" and c: "c \<notin> set selector" and nh: "\<not> is_hex c"
  shows "selector_at selector (s1 @ c # s2) = selector_at selector s1"
proof (cases "length s1 < 10")
  case True
  have "\<not> selector_at selector (s1 @ c # s2)"
  proof
    assume "selector_at selector (s1 @ c # s2)"
    then have t: "take 10 (s1 @ c # s2) = selector" by (simp add: selector_at_valid [OF v])
    have "take 10 (s1 @ c # s2) ! length s1 = (s1 @ c # s2) ! length s1"
      using True by (rule nth_take)
    then have "selector ! length s1 = c" unfolding t by simp
    moreover have "length s1 < length selector"
      using True valid_selector_shape(1) [OF v] by simp
    ultimately have "c \<in> set selector" by (metis nth_mem)
    with c show False by simp
  qed
  moreover have "\<not> selector_at selector s1"
  proof
    assume "selector_at selector s1"
    then have "take 10 s1 = selector" by (simp add: selector_at_valid [OF v])
    then have "length (take 10 s1) = 10" using valid_selector_shape(1) [OF v] by simp
    with True show False by simp
  qed
  ultimately show ?thesis by simp
next
  case False
  then have t: "take 10 (s1 @ c # s2) = take 10 s1" by simp
  have d: "drop 10 (s1 @ c # s2) = drop 10 s1 @ c # s2" using False by simp
  have "hex_follows (drop 10 s1 @ c # s2) = hex_follows (drop 10 s1)"
    using nh by (cases "drop 10 s1") (simp_all add: hex_follows_def)
  then show ?thesis
    by (simp only: selector_at_valid [OF v] t d)
qed

lemma spec_replace_before_foreign:
  "valid_selector selector \<Longrightarrow> c \<notin> set selector \<Longrightarrow> \<not> is_hex c \<Longrightarrow>
   spec_replace selector replacement (s1 @ c # s2)
     = spec_replace selector replacement s1 @ c # spec_replace selector replacement s2"
proof (induction selector replacement s1 rule: spec_replace.induct)
  case (1 selector replacement)
  have "\<not> selector_at selector (c # s2)"
    using "1.prems"(1,2) by (rule selector_at_foreign_head)
  then show ?case by (simp add: spec_replace_skip)
next
  case (2 selector replacement d ds)
  note v = "2.prems"(1)
  have same: "selector_at selector ((d # ds) @ c # s2) = selector_at selector (d # ds)"
    using "2.prems" by (rule selector_at_before_foreign)
  show ?case
  proof (cases "selector_at selector (d # ds)")
    case True
    then have "take 10 (d # ds) = selector" by (simp add: selector_at_valid [OF v])
    then have "length (take 10 (d # ds)) = 10" using valid_selector_shape(1) [OF v] by simp
    then have len: "length selector \<le> length (d # ds)"
      using valid_selector_shape(1) [OF v] by simp
    have m: "selector_at selector ((d # ds) @ c # s2)" using same True by simp
    have "spec_replace selector replacement ((d # ds) @ c # s2)
        = replacement @ spec_replace selector replacement (drop (length selector) ((d # ds) @ c # s2))"
      by (rule spec_replace_match [OF m])
    also have "drop (length selector) ((d # ds) @ c # s2) = drop (length selector) (d # ds) @ c # s2"
      using len by (simp only: drop_append diff_is_0_eq' drop_0)
    also have "spec_replace selector replacement (drop (length selector) (d # ds) @ c # s2)
        = spec_replace selector replacement (drop (length selector) (d # ds))
          @ c # spec_replace selector replacement s2"
      by (rule "2.IH"(1) [OF True "2.prems"])
    finally show ?thesis
      by (simp only: spec_replace_match [OF True] append_assoc)
  next
    case False
    then have n: "\<not> selector_at selector (d # ds @ c # s2)" using same by simp
    have "spec_replace selector replacement (ds @ c # s2)
        = spec_replace selector replacement ds @ c # spec_replace selector replacement s2"
      by (rule "2.IH"(2) [OF False "2.prems"])
    then show ?thesis
      by (simp add: spec_replace_skip [OF n] spec_replace_skip [OF False])
  qed
qed

text \<open>
  Annotating an annotated text: every annotated occurrence gets a second suffix, and the
  selector occurrences inside the first annotation are annotated as well.
\<close>

lemma spec_replace_twice:
  assumes v: "valid_selector selector"
  shows "spec_replace selector (selector @ '' ['' @ annotation @ '']'')
           (spec_replace selector (selector @ '' ['' @ annotation @ '']'') t)
       = spec_replace selector
           (selector @ '' ['' @ annotation @ '']'' @ '' [''
              @ spec_replace selector (selector @ '' ['' @ annotation @ '']'') annotation @ '']'') t"
proof -
  define R where "R = selector @ '' ['' @ annotation @ '']''"
  define R2 where "R2 = R @ '' ['' @ spec_replace selector R annotation @ '']''"
  note sh = valid_selector_shape [OF v]
  have pre: "take (length selector) R = selector" by (simp add: R_def)
  have foreign: "c \<notin> set selector \<and> \<not> is_hex c" if "c \<in> set '' []''" for c
  proof -
    from that have c: "c = CHR '' '' \<or> c = CHR ''['' \<or> c = CHR '']''" by auto
    then have nh: "\<not> is_hex c" by (auto simp: is_hex_def)
    moreover have "c \<notin> set selector"
    proof
      assume "c \<in> set selector"
      from valid_selector_chars [OF v this] nh c show False by auto
    qed
    ultimately show ?thesis by simp
  qed
  have sp: "CHR '' '' \<notin> set selector" "\<not> is_hex (CHR '' '')"
    and lb: "CHR ''['' \<notin> set selector" "\<not> is_hex (CHR ''['')"
    and rb: "CHR '']'' \<notin> set selector" "\<not> is_hex (CHR '']'')"
    using foreign by simp_all
  have piece: "spec_replace selector R (R @ u) = R2 @ spec_replace selector R u" for u
  proof -
    have m: "selector_at selector (R @ u)"
      using sp(2) sh(1)
      by (simp add: selector_at_valid [OF v] R_def hex_follows_def)
    have "spec_replace selector R (R @ u)
        = R @ spec_replace selector R (drop (length selector) (R @ u))"
      by (rule spec_replace_match [OF m])
    also have "drop (length selector) (R @ u) = CHR '' '' # CHR ''['' # annotation @ CHR '']'' # u"
      by (simp add: R_def)
    also have "spec_replace selector R (CHR '' '' # CHR ''['' # annotation @ CHR '']'' # u)
        = CHR '' '' # CHR ''['' # spec_replace selector R (annotation @ CHR '']'' # u)"
      using selector_at_foreign_head [OF v sp(1)] selector_at_foreign_head [OF v lb(1)]
      by (simp add: spec_replace_skip)
    also have "spec_replace selector R (annotation @ CHR '']'' # u)
        = spec_replace selector R annotation @ CHR '']'' # spec_replace selector R u"
      using v rb by (rule spec_replace_before_foreign)
    finally show ?thesis by (simp add: R2_def)
  qed
  have "spec_replace selector R (spec_replace selector R t) = spec_replace selector R2 t"
  proof (induction t rule: length_induct)
    case (1 t)
    show ?case
    proof (cases t)
      case Nil
      then show ?thesis by simp
    next
      case (Cons c cs)
      show ?thesis
      proof (cases "selector_at selector t")
        case True
        have shorter: "length (drop (length selector) t) < length t"
          using sh(1) Cons by simp
        have "spec_replace selector R (spec_replace selector R t)
            = spec_replace selector R (R @ spec_replace selector R (drop (length selector) t))"
          by (simp only: spec_replace_match [OF True])
        also have "\<dots> = R2 @ spec_replace selector R (spec_replace selector R (drop (length selector) t))"
          by (rule piece)
        also have "\<dots> = R2 @ spec_replace selector R2 (drop (length selector) t)"
          using "1.IH" shorter by simp
        also have "\<dots> = spec_replace selector R2 t"
          by (simp only: spec_replace_match [OF True])
        finally show ?thesis .
      next
        case False
        then have n: "\<not> selector_at selector (c # cs)" using Cons by simp
        have n': "\<not> selector_at selector (c # spec_replace selector R cs)"
          using v pre n by (rule no_new_match)
        have "spec_replace selector R (spec_replace selector R cs) = spec_replace selector R2 cs"
          using "1.IH" Cons by simp
        then show ?thesis
          unfolding Cons by (simp add: spec_replace_skip [OF n] spec_replace_skip [OF n'])
      qed
    qed
  qed
  then show ?thesis by (simp add: R_def R2_def)
qed

text \<open>
  For a well-formed selector and an annotation without \<open>$\<close> the annotation step is the
  specification's literal substitution, and it is not idempotent: a second pass puts a
  second suffix after every annotated occurrence (and annotates the selector occurrences
  inside the first annotation).
\<close>

lemma annotate_twice_without_dollar:
  assumes v: "valid_selector selector" and a: "CHR ''$'' \<notin> set annotation"
  shows "annotate (annotate t selector annotation) selector annotation
       = spec_replace selector
           (selector @ '' ['' @ annotation @ '']'' @ '' [''
              @ annotate annotation selector annotation @ '']'') t"
  unfolding annotate_without_dollar [OF v a] spec_annotate_def
  by (rule spec_replace_twice [OF v])

text \<open>A selector without a resolved candidate is left as it is.\<close>

lemma unresolved_selector_untouched:
  "bestMatch signatures = None \<Longrightarrow>
   simplify_trace ((selector, signatures) # rest) t = simplify_trace rest t"
  by simp

lemma annotate_twice_sample:
  "annotate (annotate ''CALL 0xabcdabcd ok'' ''0xabcdabcd'' ''transfer(address,uint256)'')
     ''0xabcdabcd'' ''transfer(address,uint256)''
   = ''CALL 0xabcdabcd [transfer(address,uint256)] [transfer(address,uint256)] ok''"
  by code_simp

text \<open>
  Claim C6. The annotation is handed to \<open>String.prototype.replace\<close> as a replacement
  string, so it is inserted as written only when it holds no \<open>$\<close> pattern. The directory
  answers \<open>a$$b(uint256)\<close> for the selector \<open>0x12345678\<close> in the sample environment:
  the annotated trace shows \<open>a$b(uint256)\<close>, where the literal substitution the claim
  describes shows \<open>a$$b(uint256)\<close>; an annotation \<open>$&\<close> is replaced by the selector.
\<close>

theorem annotation_expands_dollar_patterns:
  "parse_signatures (''a$$b(uint256)'' @ [LF]) = [''a$$b(uint256)'']
   \<and> fst (processFunctionSelectors sample_env ''CALL 0x12345678'' sample_rpc [])
       = ''CALL 0x12345678 [Likely: a$b(uint256)]''
   \<and> spec_annotate ''CALL 0x12345678'' ''0x12345678'' ''Likely: a$$b(uint256)''
       = ''CALL 0x12345678 [Likely: a$$b(uint256)]''
   \<and> annotate ''CALL 0x12345678'' ''0x12345678'' ''$&'' = ''CALL 0x12345678 [0x12345678]''"
  by code_simp

end
